theory Spec2Isabelle
  imports Complex_Main
begin

section \<open>JavaScript values\<close>

text \<open>
  The values that \<^verbatim>\<open>bodyParser.json()\<close> can put into a property of \<^verbatim>\<open>req.body\<close>, plus
  \<^verbatim>\<open>undefined\<close> for a property that is not there. A number stands for the parsed double; the
  handlers only test a number for truthiness and for its type, so its value is kept as a
  rational (zero is the one falsy number a JSON text can denote). The one place where the
  digits of a number would count, a number used as a property name by the statistics
  handler, takes them from the environment.
\<close>

text \<open>
  A string is a list of characters, each standing for the UTF-16 code unit of its code: the
  strings covered are those of code units below 256.
\<close>

datatype jval =
    JUndefined
  | JNull
  | JBool bool
  | JNum rat
  | JStr string
  | JArr "jval list"
  | JObj "(string \<times> jval) list"

datatype jstype = T_undefined | T_object | T_boolean | T_number | T_string

text \<open>The \<^verbatim>\<open>typeof\<close> operator (\<^verbatim>\<open>typeof null\<close> is \<^verbatim>\<open>'object'\<close>, as is an array's).\<close>

fun typeof :: "jval \<Rightarrow> jstype" where
  "typeof JUndefined = T_undefined"
| "typeof JNull = T_object"
| "typeof (JBool b) = T_boolean"
| "typeof (JNum n) = T_number"
| "typeof (JStr s) = T_string"
| "typeof (JArr xs) = T_object"
| "typeof (JObj kvs) = T_object"

text \<open>ToBoolean: what \<^verbatim>\<open>!x\<close>, \<^verbatim>\<open>x && y\<close> and \<^verbatim>\<open>x || y\<close> test.\<close>

fun truthy :: "jval \<Rightarrow> bool" where
  "truthy JUndefined = False"
| "truthy JNull = False"
| "truthy (JBool b) = b"
| "truthy (JNum n) = (n \<noteq> 0)"
| "truthy (JStr s) = (s \<noteq> [])"
| "truthy (JArr xs) = True"
| "truthy (JObj kvs) = True"

text \<open>\<^verbatim>\<open>a || b\<close> on values.\<close>

definition js_or :: "jval \<Rightarrow> jval \<Rightarrow> jval" where
  "js_or a b = (if truthy a then a else b)"

section \<open>Data model\<close>

text \<open>
  A stored product is a JavaScript object with six properties. The five properties other than
  the id hold whatever value the handlers assign, so they are values here; that they are of
  the declared types is a property to prove, not a typing of the model.
\<close>

record product =
  product_id :: string
  name :: jval
  description :: jval
  price :: jval
  category :: jval
  inStock :: jval

text \<open>
  The state of the process: the \<^verbatim>\<open>products\<close> array, and how many identifiers the imported
  generator \<^verbatim>\<open>uuidv4\<close> has handed out so far.
\<close>

record server =
  products :: "product list"
  uuid_calls :: nat

text \<open>
  What the process takes from outside: \<^verbatim>\<open>process.env.API_KEY\<close> (\<open>None\<close> when the variable is
  not set) and the imported generator, \<open>uuidv4 n\<close> being the string its \<open>n\<close>-th call returns.
  \<open>number_to_string\<close> is the decimal text the runtime gives a number that is used as a property
  name.
\<close>

record env =
  API_KEY :: "string option"
  uuidv4 :: "nat \<Rightarrow> string"
  number_to_string :: "rat \<Rightarrow> string"

definition seed :: "product list" where
  "seed =
    [ \<lparr> product_id = ''1'', name = JStr ''Laptop'',
        description = JStr ''High-performance laptop with 16GB RAM'',
        price = JNum 1200, category = JStr ''electronics'', inStock = JBool True \<rparr>,
      \<lparr> product_id = ''2'', name = JStr ''Smartphone'',
        description = JStr ''Latest model with 128GB storage'',
        price = JNum 800, category = JStr ''electronics'', inStock = JBool True \<rparr>,
      \<lparr> product_id = ''3'', name = JStr ''Coffee Maker'',
        description = JStr ''Programmable coffee maker with timer'',
        price = JNum 50, category = JStr ''kitchen'', inStock = JBool False \<rparr> ]"

definition initial :: server where
  "initial = \<lparr> products = seed, uuid_calls = 0 \<rparr>"

section \<open>Requests, responses, errors\<close>

datatype http_method = GET | POST | PUT | DELETE

text \<open>
  A request as the middleware after \<^verbatim>\<open>bodyParser.json()\<close> sees it: the method, the
  non-empty segments of the URL path (\<^verbatim>\<open>/api/products/3\<close> is \<open>[''api'', ''products'', ''3'']\<close>),
  the \<^verbatim>\<open>x-api-key\<close> header, the query parameters (each a string) and the parsed body as a
  map from property names to values (the empty map when the request has no JSON body).
  The requests considered are those with one of the four methods below, with no
  percent-encoded character in the path and with each query parameter given once, as a
  plain string.
\<close>

record request =
  req_method :: http_method
  path :: "string list"
  x_api_key :: "string option"
  query :: "string \<rightharpoonup> string"
  body :: "string \<rightharpoonup> jval"

text \<open>
  What \<^verbatim>\<open>bodyParser.json()\<close>, the first middleware of the application, makes of an incoming
  request: it either passes the request on with its body parsed, or it fails (a body that is
  not well-formed JSON, or too large) and passes an error on that carries its own status and
  message. \<open>Failed c m req\<close> is that error for the request \<open>req\<close>, whose body is not read
  then.
\<close>

datatype incoming = Failed nat string request | Parsed request

text \<open>
  The error classes of the source, the error of the body parser, and the \<^verbatim>\<open>TypeError\<close> a
  handler can throw on a property access.
\<close>

datatype error =
    NotFoundError string
  | ValidationError string
  | UnauthorizedError string
  | BodyParserError nat string
  | TypeError string

fun error_status :: "error \<Rightarrow> nat option" where
  "error_status (NotFoundError m) = Some 404"
| "error_status (ValidationError m) = Some 400"
| "error_status (UnauthorizedError m) = Some 401"
| "error_status (BodyParserError c m) = Some c"
| "error_status (TypeError m) = None"

fun message :: "error \<Rightarrow> string" where
  "message (NotFoundError m) = m"
| "message (ValidationError m) = m"
| "message (UnauthorizedError m) = m"
| "message (BodyParserError c m) = m"
| "message (TypeError m) = m"

text \<open>
  What the statistics object holds under a name: a count, or the text that adding 1 to an
  inherited property leaves there.
\<close>

datatype stat = Count nat | Described string

datatype payload =
    Page jval jval nat "product list"
  | One product
  | Many "product list"
  | Stats "string \<rightharpoonup> stat"
  | Failure string
  | Text string
  | NoRoute
  | Empty

record response =
  status :: nat
  payload :: payload

text \<open>The global error-handling middleware: \<^verbatim>\<open>err.status || 500\<close> and the message.\<close>

definition errorHandler :: "error \<Rightarrow> response" where
  "errorHandler err =
     \<lparr> status = (case error_status err of Some c \<Rightarrow> if c = 0 then 500 else c | None \<Rightarrow> 500),
       payload = Failure (message err) \<rparr>"

section \<open>Middleware\<close>

text \<open>\<^verbatim>\<open>apiKey && apiKey === process.env.API_KEY\<close>: \<open>None\<close> when the request may proceed.\<close>

definition authMiddleware :: "env \<Rightarrow> request \<Rightarrow> error option" where
  "authMiddleware e req =
     (case x_api_key req of
        None \<Rightarrow> Some (UnauthorizedError ''Unauthorized'')
      | Some apiKey \<Rightarrow>
          if apiKey \<noteq> [] \<and> Some apiKey = API_KEY e then None
          else Some (UnauthorizedError ''Unauthorized''))"

text \<open>Reading a property of the body: \<^verbatim>\<open>undefined\<close> when it is not there.\<close>

definition body_prop :: "(string \<rightharpoonup> jval) \<Rightarrow> string \<Rightarrow> jval" where
  "body_prop b k = (case b k of None \<Rightarrow> JUndefined | Some v \<Rightarrow> v)"

definition validateProductCreation :: "(string \<rightharpoonup> jval) \<Rightarrow> error option" where
  "validateProductCreation b =
     (let name = body_prop b ''name''; description = body_prop b ''description'';
          price = body_prop b ''price''; category = body_prop b ''category'';
          inStock = body_prop b ''inStock''
      in if \<not> truthy name \<or> \<not> truthy description \<or> \<not> truthy price \<or> \<not> truthy category
            \<or> inStock = JUndefined
         then Some (ValidationError ''All fields are required'')
         else if typeof name \<noteq> T_string \<or> typeof description \<noteq> T_string
            \<or> typeof price \<noteq> T_number \<or> typeof category \<noteq> T_string
            \<or> typeof inStock \<noteq> T_boolean
         then Some (ValidationError ''Invalid data types'')
         else None)"

definition validateProductUpdate :: "(string \<rightharpoonup> jval) \<Rightarrow> error option" where
  "validateProductUpdate b =
     (let name = body_prop b ''name''; description = body_prop b ''description'';
          price = body_prop b ''price''; category = body_prop b ''category'';
          inStock = body_prop b ''inStock''
      in if truthy name \<and> typeof name \<noteq> T_string
           then Some (ValidationError ''Name must be a string'')
         else if truthy description \<and> typeof description \<noteq> T_string
           then Some (ValidationError ''Description must be a string'')
         else if truthy price \<and> typeof price \<noteq> T_number
           then Some (ValidationError ''Price must be a number'')
         else if truthy category \<and> typeof category \<noteq> T_string
           then Some (ValidationError ''Category must be a string'')
         else if inStock \<noteq> JUndefined \<and> typeof inStock \<noteq> T_boolean
           then Some (ValidationError ''inStock must be a boolean'')
         else None)"

section \<open>Library functions the handlers call\<close>

text \<open>
  The numbers the list handler computes with. \<^verbatim>\<open>parseInt\<close> returns \<^verbatim>\<open>NaN\<close>, an infinity or
  an integer that is a double; the handler subtracts 1 from such a number and multiplies two
  of them, so every number it holds is again one of these. The two zeros are not told apart:
  both are falsy, and \<^verbatim>\<open>slice\<close> reads both as 0.
\<close>

datatype number = NaN | NegInf | Fin int | PosInf

text \<open>The number of binary digits of a natural number.\<close>

fun bit_length :: "nat \<Rightarrow> nat" where
  "bit_length n = (if n = 0 then 0 else Suc (bit_length (n div 2)))"

declare bit_length.simps [simp del]

text \<open>
  Rounding to a double. A magnitude below \<open>2 ^ 53\<close> is a double as it is. A larger one keeps
  its 53 leading binary digits, rounded to the nearest, and to the even one when two are
  equally near.
\<close>

definition round_magnitude :: "nat \<Rightarrow> nat" where
  "round_magnitude a =
     (let e = bit_length a - 53;
          q = a div 2 ^ e;
          r = a mod 2 ^ e;
          q' = (if 2 ^ e < 2 * r \<or> (2 * r = 2 ^ e \<and> odd q) then q + 1 else q)
      in q' * 2 ^ e)"

text \<open>The double for an integer; what rounds to \<open>2 ^ 1024\<close> or more is infinite.\<close>

definition to_double :: "int \<Rightarrow> number" where
  "to_double n =
     (let a = nat \<bar>n\<bar>
      in if a < 2 ^ 53 then Fin n
         else
           let m = round_magnitude a
           in if 2 ^ 1024 \<le> m then (if n < 0 then NegInf else PosInf)
              else Fin (if n < 0 then - int m else int m))"

text \<open>\<^verbatim>\<open>x - 1\<close> and \<^verbatim>\<open>x * y\<close>: the exact result, rounded.\<close>

definition js_minus_one :: "number \<Rightarrow> number" where
  "js_minus_one x = (case x of Fin n \<Rightarrow> to_double (n - 1) | _ \<Rightarrow> x)"

fun js_times :: "number \<Rightarrow> number \<Rightarrow> number" where
  "js_times NaN y = NaN"
| "js_times x NaN = NaN"
| "js_times (Fin a) (Fin b) = to_double (a * b)"
| "js_times (Fin a) PosInf = (if a = 0 then NaN else if a < 0 then NegInf else PosInf)"
| "js_times (Fin a) NegInf = (if a = 0 then NaN else if a < 0 then PosInf else NegInf)"
| "js_times PosInf (Fin b) = (if b = 0 then NaN else if b < 0 then NegInf else PosInf)"
| "js_times NegInf (Fin b) = (if b = 0 then NaN else if b < 0 then PosInf else NegInf)"
| "js_times PosInf PosInf = PosInf"
| "js_times PosInf NegInf = NegInf"
| "js_times NegInf PosInf = NegInf"
| "js_times NegInf NegInf = PosInf"

text \<open>ToBoolean of a number: \<^verbatim>\<open>NaN\<close> and 0 are falsy.\<close>

definition number_truthy :: "number \<Rightarrow> bool" where
  "number_truthy x \<longleftrightarrow> x \<noteq> NaN \<and> x \<noteq> Fin 0"

text \<open>
  A number in a JSON response: \<^verbatim>\<open>JSON.stringify\<close> writes \<^verbatim>\<open>null\<close> for \<^verbatim>\<open>NaN\<close> and the
  infinities.
\<close>

definition json_number :: "number \<Rightarrow> jval" where
  "json_number x = (case x of Fin n \<Rightarrow> JNum (of_int n) | _ \<Rightarrow> JNull)"

text \<open>
  \<^verbatim>\<open>Array.prototype.slice(start, end)\<close>. An index is read as an integer (\<^verbatim>\<open>NaN\<close> as 0); a
  negative one counts from the end of the array; both are clamped to the array.
\<close>

definition relative_index :: "nat \<Rightarrow> number \<Rightarrow> int" where
  "relative_index len x =
     (case x of
        NaN \<Rightarrow> 0
      | NegInf \<Rightarrow> 0
      | PosInf \<Rightarrow> int len
      | Fin i \<Rightarrow> if i < 0 then max (int len + i) 0 else min i (int len))"

definition slice :: "'a list \<Rightarrow> number \<Rightarrow> number \<Rightarrow> 'a list" where
  "slice xs start fin =
     (let len = length xs;
          k = relative_index len start;
          final = relative_index len fin
      in take (nat (final - k)) (drop (nat k) xs))"

text \<open>
  \<^verbatim>\<open>parseInt(string)\<close> with no radix: leading white space is skipped, a sign is read, a
  \<^verbatim>\<open>0x\<close> prefix selects base 16, and the longest run of digits is the value, rounded to a
  double; without a digit the result is \<^verbatim>\<open>NaN\<close>. The white space characters with a code
  below 256 are the five controls, the space and the no-break space.
\<close>

definition is_space :: "char \<Rightarrow> bool" where
  "is_space c = (of_char c \<in> {9, 10, 11, 12, 13, 32, 160 :: nat})"

definition digit_val :: "char \<Rightarrow> nat" where
  "digit_val c =
     (let n = of_char c :: nat
      in if 48 \<le> n \<and> n \<le> 57 then n - 48
         else if 97 \<le> n \<and> n \<le> 122 then n - 87
         else if 65 \<le> n \<and> n \<le> 90 then n - 55
         else 36)"

definition parseInt :: "string \<Rightarrow> number" where
  "parseInt str =
     (let s = dropWhile is_space str;
          (sign, s1) =
            (case s of
               [] \<Rightarrow> (1 :: int, s)
             | c # r \<Rightarrow> if c = CHR ''-'' then (- 1, r) else if c = CHR ''+'' then (1, r) else (1, s));
          (radix, s2) =
            (case s1 of
               a # b # r \<Rightarrow>
                 if a = CHR ''0'' \<and> (b = CHR ''x'' \<or> b = CHR ''X'') then (16 :: nat, r) else (10, s1)
             | _ \<Rightarrow> (10, s1));
          ds = takeWhile (\<lambda>c. digit_val c < radix) s2
      in if ds = [] then NaN
         else to_double (sign * int (foldl (\<lambda>a c. a * radix + digit_val c) 0 ds)))"

text \<open>
  \<^verbatim>\<open>parseInt(req.query.k) || d\<close>. For a parameter that is not there \<^verbatim>\<open>parseInt\<close> is given
  \<^verbatim>\<open>undefined\<close> and returns \<^verbatim>\<open>NaN\<close>.
\<close>

definition query_number :: "(string \<rightharpoonup> string) \<Rightarrow> string \<Rightarrow> number \<Rightarrow> number" where
  "query_number q k d =
     (let x = (case q k of None \<Rightarrow> NaN | Some v \<Rightarrow> parseInt v)
      in if number_truthy x then x else d)"

text \<open>
  \<^verbatim>\<open>String.prototype.toLowerCase\<close>. Among the characters with a code below 256 the upper-case
  letters are A to Z and the codes 192 to 222 without 215 (the multiplication sign); each
  has its lower-case letter 32 places on.
\<close>

definition toLowerCase :: "string \<Rightarrow> string" where
  "toLowerCase s =
     map (\<lambda>c. let n = of_char c :: nat
              in if (65 \<le> n \<and> n \<le> 90) \<or> (192 \<le> n \<and> n \<le> 222 \<and> n \<noteq> 215)
                 then char_of (n + 32) else c) s"

fun startsWith :: "string \<Rightarrow> string \<Rightarrow> bool" where
  "startsWith s [] = True"
| "startsWith [] (c # t) = False"
| "startsWith (a # s) (c # t) = (a = c \<and> startsWith s t)"

text \<open>\<^verbatim>\<open>s.includes(t)\<close>: \<open>t\<close> occurs in \<open>s\<close> as a contiguous substring.\<close>

fun js_includes :: "string \<Rightarrow> string \<Rightarrow> bool" where
  "js_includes [] t = (t = [])"
| "js_includes (a # s) t = (startsWith (a # s) t \<or> js_includes s t)"

text \<open>\<^verbatim>\<open>Array.prototype.findIndex\<close>: \<open>None\<close> is \<^verbatim>\<open>-1\<close>.\<close>

fun findIndex :: "('a \<Rightarrow> bool) \<Rightarrow> 'a list \<Rightarrow> nat option" where
  "findIndex P [] = None"
| "findIndex P (x # xs) = (if P x then Some 0 else map_option Suc (findIndex P xs))"

text \<open>\<^verbatim>\<open>array.splice(index, 1)\<close>.\<close>

definition splice1 :: "nat \<Rightarrow> 'a list \<Rightarrow> 'a list" where
  "splice1 k xs = take k xs @ drop (Suc k) xs"

section \<open>Route handlers\<close>

text \<open>
  Each handler takes the state and the parts of the request it reads, and returns either the
  error it passes to \<^verbatim>\<open>next\<close> or the response with the state after it.
  \<open>i\<close> is \<^verbatim>\<open>req.params.id\<close>.
\<close>

definition listProducts :: "server \<Rightarrow> (string \<rightharpoonup> string) \<Rightarrow> response" where
  "listProducts s q =
     (let filteredProducts =
            (case q ''category'' of
               None \<Rightarrow> products s
             | Some c \<Rightarrow>
                 if c \<noteq> [] then filter (\<lambda>p. category p = JStr c) (products s) else products s);
          page = query_number q ''page'' (Fin 1);
          limit = query_number q ''limit'' (Fin 10);
          startIndex = js_times (js_minus_one page) limit;
          endIndex = js_times page limit;
          paginatedProducts = slice filteredProducts startIndex endIndex
      in \<lparr> status = 200,
           payload = Page (json_number page) (json_number limit) (length filteredProducts)
             paginatedProducts \<rparr>)"

definition getProduct :: "server \<Rightarrow> string \<Rightarrow> error + response \<times> server" where
  "getProduct s i =
     (case find (\<lambda>p. product_id p = i) (products s) of
        Some product \<Rightarrow> Inr (\<lparr> status = 200, payload = One product \<rparr>, s)
      | None \<Rightarrow> Inl (NotFoundError ''Product not found''))"

definition createProduct :: "env \<Rightarrow> server \<Rightarrow> (string \<rightharpoonup> jval) \<Rightarrow> error + response \<times> server" where
  "createProduct e s b =
     (case validateProductCreation b of
        Some err \<Rightarrow> Inl err
      | None \<Rightarrow>
          let newProduct =
                \<lparr> product_id = uuidv4 e (uuid_calls s),
                  name = body_prop b ''name'',
                  description = body_prop b ''description'',
                  price = body_prop b ''price'',
                  category = body_prop b ''category'',
                  inStock = body_prop b ''inStock'' \<rparr>
          in Inr (\<lparr> status = 201, payload = One newProduct \<rparr>,
                  s \<lparr> products := products s @ [newProduct],
                      uuid_calls := Suc (uuid_calls s) \<rparr>))"

text \<open>The assignments of the update handler to the product it found.\<close>

definition merge :: "product \<Rightarrow> (string \<rightharpoonup> jval) \<Rightarrow> product" where
  "merge product b =
     product
       \<lparr> name := js_or (body_prop b ''name'') (name product),
         description := js_or (body_prop b ''description'') (description product),
         price := js_or (body_prop b ''price'') (price product),
         category := js_or (body_prop b ''category'') (category product),
         inStock :=
           (if body_prop b ''inStock'' \<noteq> JUndefined then body_prop b ''inStock''
            else inStock product) \<rparr>"

text \<open>
  \<^verbatim>\<open>products.find\<close> returns the first matching object itself, and the handler assigns to its
  properties: the array afterwards holds the merged product at that position.
\<close>

definition updateProduct :: "server \<Rightarrow> string \<Rightarrow> (string \<rightharpoonup> jval) \<Rightarrow> error + response \<times> server" where
  "updateProduct s i b =
     (case validateProductUpdate b of
        Some err \<Rightarrow> Inl err
      | None \<Rightarrow>
          (case findIndex (\<lambda>p. product_id p = i) (products s) of
             Some k \<Rightarrow>
               let product = merge (products s ! k) b
               in Inr (\<lparr> status = 200, payload = One product \<rparr>,
                       s \<lparr> products := (products s)[k := product] \<rparr>)
           | None \<Rightarrow> Inl (NotFoundError ''Product not found'')))"

definition deleteProduct :: "server \<Rightarrow> string \<Rightarrow> error + response \<times> server" where
  "deleteProduct s i =
     (case findIndex (\<lambda>p. product_id p = i) (products s) of
        Some index \<Rightarrow>
          Inr (\<lparr> status = 204, payload = Empty \<rparr>, s \<lparr> products := splice1 index (products s) \<rparr>)
      | None \<Rightarrow> Inl (NotFoundError ''Product not found''))"

text \<open>
  The filter of the search handler. \<^verbatim>\<open>p.name.toLowerCase()\<close> throws a \<^verbatim>\<open>TypeError\<close> when the
  name is not a string; the message is the one for a value that has no such method (for
  \<^verbatim>\<open>null\<close> and \<^verbatim>\<open>undefined\<close> the runtime words it differently).
\<close>

fun filter_by_name :: "string \<Rightarrow> product list \<Rightarrow> error + product list" where
  "filter_by_name t [] = Inr []"
| "filter_by_name t (p # ps) =
     (case name p of
        JStr n \<Rightarrow>
          (case filter_by_name t ps of
             Inl err \<Rightarrow> Inl err
           | Inr r \<Rightarrow> Inr (if js_includes (toLowerCase n) t then p # r else r))
      | _ \<Rightarrow> Inl (TypeError ''p.name.toLowerCase is not a function''))"

definition searchProducts :: "server \<Rightarrow> (string \<rightharpoonup> string) \<Rightarrow> error + response \<times> server" where
  "searchProducts s q =
     (let searchTerm = (case q ''q'' of None \<Rightarrow> [] | Some v \<Rightarrow> if v \<noteq> [] then toLowerCase v else [])
      in case filter_by_name searchTerm (products s) of
           Inl err \<Rightarrow> Inl err
         | Inr filteredProducts \<Rightarrow> Inr (\<lparr> status = 200, payload = Many filteredProducts \<rparr>, s))"

text \<open>
  The property name a value stands for in \<^verbatim>\<open>acc[product.category]\<close>. A string is its own
  name. An array is joined with commas, \<^verbatim>\<open>null\<close> and \<^verbatim>\<open>undefined\<close> elements giving the empty
  string. An object parsed from JSON has only own data properties: with no own \<^verbatim>\<open>toString\<close>
  it is named by \<^verbatim>\<open>Object.prototype.toString\<close>; with one, which is not callable, neither it nor
  \<^verbatim>\<open>valueOf\<close> gives a primitive and the conversion throws. The digits of a number are the
  runtime's, \<open>number_to_string\<close>.
\<close>

definition join_comma :: "string list \<Rightarrow> string" where
  "join_comma ts = (case ts of [] \<Rightarrow> [] | t # r \<Rightarrow> foldl (\<lambda>acc u. acc @ '','' @ u) t r)"

fun to_string :: "env \<Rightarrow> jval \<Rightarrow> error + string"
  and element_strings :: "env \<Rightarrow> jval list \<Rightarrow> error + string list" where
  "to_string e JUndefined = Inr ''undefined''"
| "to_string e JNull = Inr ''null''"
| "to_string e (JBool b) = Inr (if b then ''true'' else ''false'')"
| "to_string e (JNum r) = Inr (number_to_string e r)"
| "to_string e (JStr t) = Inr t"
| "to_string e (JArr xs) =
     (case element_strings e xs of Inl err \<Rightarrow> Inl err | Inr ts \<Rightarrow> Inr (join_comma ts))"
| "to_string e (JObj kvs) =
     (if ''toString'' \<in> fst ` set kvs
      then Inl (TypeError ''Cannot convert object to primitive value'')
      else Inr ''[object Object]'')"
| "element_strings e [] = Inr []"
| "element_strings e (x # xs) =
     (case (if x = JUndefined \<or> x = JNull then Inr [] else to_string e x) of
        Inl err \<Rightarrow> Inl err
      | Inr t \<Rightarrow> (case element_strings e xs of Inl err \<Rightarrow> Inl err | Inr ts \<Rightarrow> Inr (t # ts)))"

text \<open>
  The accumulator of the statistics handler is a plain object: \<open>acc k\<close> is its own property
  \<open>k\<close>, a count or, as shown below, a string (\<open>stat\<close>). Reading \<^verbatim>\<open>acc[k]\<close> when \<open>k\<close> is
  no own property finds what \<^verbatim>\<open>Object.prototype\<close> has under that name: a function under
  each of \<open>object_prototype_names\<close>, the prototype itself under \<^verbatim>\<open>__proto__\<close>, and nothing
  under any other name.
\<close>

definition object_prototype_names :: "string list" where
  "object_prototype_names =
     [ ''constructor'', ''__defineGetter__'', ''__defineSetter__'', ''hasOwnProperty'',
       ''__lookupGetter__'', ''__lookupSetter__'', ''isPrototypeOf'', ''propertyIsEnumerable'',
       ''toString'', ''valueOf'', ''toLocaleString'' ]"

text \<open>What adding 1 to the function under \<open>k\<close> starts from: the text of a native function.\<close>

definition native_function :: "string \<Rightarrow> string" where
  "native_function k =
     ''function '' @ (if k = ''constructor'' then ''Object'' else k) @ ''() { [native code] }''"

text \<open>
  \<^verbatim>\<open>acc[k] = (acc[k] || 0) + 1\<close>. A count grows by one, and a name that is new and not
  inherited gets the count 1. A string or a function is truthy, and adding 1 to it appends
  the character \<^verbatim>\<open>1\<close> to its text; the empty string is falsy. Under \<^verbatim>\<open>__proto__\<close> the
  assignment reaches the setter of the prototype, which drops a value that is not an object,
  so the accumulator stays as it is. The counts are exact: an array holds fewer than
  \<open>2\<^sup>3\<^sup>2\<close> elements.
\<close>

definition count_key :: "(string \<rightharpoonup> stat) \<Rightarrow> string \<Rightarrow> (string \<rightharpoonup> stat)" where
  "count_key acc k =
     (case acc k of
        Some (Count n) \<Rightarrow> acc(k \<mapsto> Count (n + 1))
      | Some (Described t) \<Rightarrow> acc(k \<mapsto> (if t = [] then Count 1 else Described (t @ ''1'')))
      | None \<Rightarrow>
          if k = ''__proto__'' then acc
          else if k \<in> set object_prototype_names
          then acc(k \<mapsto> Described (native_function k @ ''1''))
          else acc(k \<mapsto> Count 1))"

text \<open>
  The \<^verbatim>\<open>reduce\<close> of the statistics handler, from the left, stopping at the first category
  whose conversion to a property name throws.
\<close>

fun count_categories ::
  "env \<Rightarrow> (string \<rightharpoonup> stat) \<Rightarrow> product list \<Rightarrow> error + (string \<rightharpoonup> stat)" where
  "count_categories e acc [] = Inr acc"
| "count_categories e acc (product # rest) =
     (case to_string e (category product) of
        Inl err \<Rightarrow> Inl err
      | Inr k \<Rightarrow> count_categories e (count_key acc k) rest)"

definition productStats :: "env \<Rightarrow> server \<Rightarrow> error + response \<times> server" where
  "productStats e s =
     (case count_categories e Map.empty (products s) of
        Inl err \<Rightarrow> Inl err
      | Inr stats \<Rightarrow> Inr (\<lparr> status = 200, payload = Stats stats \<rparr>, s))"

section \<open>Routing\<close>

text \<open>
  The router tries its routes in the order of registration and runs the first whose method
  and path pattern match. \<open>Param\<close> is \<^verbatim>\<open>:id\<close>, which matches any one segment. A literal
  segment is matched without regard to the case of the letters A to Z, as the framework does
  by default (it compiles the pattern to a regular expression with the flag \<^verbatim>\<open>i\<close>, under which
  a character outside ASCII never matches an ASCII letter).
\<close>

definition ascii_lower :: "char \<Rightarrow> char" where
  "ascii_lower c =
     (let n = of_char c :: nat in if 65 \<le> n \<and> n \<le> 90 then char_of (n + 32) else c)"

definition same_literal :: "string \<Rightarrow> string \<Rightarrow> bool" where
  "same_literal l x \<longleftrightarrow> map ascii_lower l = map ascii_lower x"

datatype seg = Lit string | Param

datatype endpoint =
    ListProducts | GetProduct | CreateProduct | UpdateProduct | DeleteProduct
  | SearchProducts | ProductStats

fun matches :: "seg list \<Rightarrow> string list \<Rightarrow> string list option" where
  "matches [] [] = Some []"
| "matches (Lit l # ps) (x # xs) = (if same_literal l x then matches ps xs else None)"
| "matches (Param # ps) (x # xs) = map_option ((#) x) (matches ps xs)"
| "matches _ _ = None"

text \<open>The routes of \<^verbatim>\<open>apiRouter\<close>, in the order the source registers them.\<close>

definition routes :: "(http_method \<times> seg list \<times> endpoint) list" where
  "routes =
    [ (GET, [Lit ''products''], ListProducts),
      (GET, [Lit ''products'', Param], GetProduct),
      (POST, [Lit ''products''], CreateProduct),
      (PUT, [Lit ''products'', Param], UpdateProduct),
      (DELETE, [Lit ''products'', Param], DeleteProduct),
      (GET, [Lit ''products'', Lit ''search''], SearchProducts),
      (GET, [Lit ''products'', Lit ''stats''], ProductStats) ]"

fun dispatch ::
  "(http_method \<times> seg list \<times> endpoint) list \<Rightarrow> http_method \<Rightarrow> string list \<Rightarrow> (endpoint \<times> string list) option"
where
  "dispatch [] m p = None"
| "dispatch ((m', pat, h) # rs) m p =
     (if m' = m
      then (case matches pat p of Some params \<Rightarrow> Some (h, params) | None \<Rightarrow> dispatch rs m p)
      else dispatch rs m p)"

text \<open>\<^verbatim>\<open>req.params.id\<close> of the matched route (the empty string stands for a route without it).\<close>

definition param_id :: "string list \<Rightarrow> string" where
  "param_id params = (case params of [] \<Rightarrow> [] | i # _ \<Rightarrow> i)"

definition run_endpoint ::
  "env \<Rightarrow> server \<Rightarrow> request \<Rightarrow> endpoint \<Rightarrow> string list \<Rightarrow> error + response \<times> server"
where
  "run_endpoint e s req h params =
     (case h of
        ListProducts \<Rightarrow> Inr (listProducts s (query req), s)
      | GetProduct \<Rightarrow> getProduct s (param_id params)
      | CreateProduct \<Rightarrow> createProduct e s (body req)
      | UpdateProduct \<Rightarrow> updateProduct s (param_id params) (body req)
      | DeleteProduct \<Rightarrow> deleteProduct s (param_id params)
      | SearchProducts \<Rightarrow> searchProducts s (query req)
      | ProductStats \<Rightarrow> productStats e s)"

text \<open>
  \<^verbatim>\<open>apiRouter\<close>: the authentication middleware first, then the routes; a request that no
  route matches leaves the router and ends in the framework's 404.
\<close>

definition apiRouter :: "env \<Rightarrow> server \<Rightarrow> request \<Rightarrow> string list \<Rightarrow> error + response \<times> server" where
  "apiRouter e s req rest =
     (case authMiddleware e req of
        Some err \<Rightarrow> Inl err
      | None \<Rightarrow>
          (case dispatch routes (req_method req) rest of
             Some (h, params) \<Rightarrow> run_endpoint e s req h params
           | None \<Rightarrow> Inr (\<lparr> status = 404, payload = NoRoute \<rparr>, s)))"

text \<open>
  The middleware after the body parser: the logger (which writes a line and passes the request
  on), the router mounted at \<^verbatim>\<open>/api\<close>, then the root route.
\<close>

definition routing :: "env \<Rightarrow> server \<Rightarrow> request \<Rightarrow> error + response \<times> server" where
  "routing e s req =
     (case path req of
        [] \<Rightarrow>
          if req_method req = GET
          then Inr (\<lparr> status = 200,
                      payload = Text ''Welcome to the Product API! Go to /api/products to see all products.'' \<rparr>, s)
          else Inr (\<lparr> status = 404, payload = NoRoute \<rparr>, s)
      | x # rest \<Rightarrow>
          if same_literal ''api'' x then apiRouter e s req rest
          else Inr (\<lparr> status = 404, payload = NoRoute \<rparr>, s))"

text \<open>
  The application, in the order the source registers its middleware: the body parser first,
  whose error skips everything up to the error handler.
\<close>

definition app :: "env \<Rightarrow> server \<Rightarrow> incoming \<Rightarrow> error + response \<times> server" where
  "app e s inc =
     (case inc of
        Failed c m req \<Rightarrow> Inl (BodyParserError c m)
      | Parsed req \<Rightarrow> routing e s req)"

text \<open>One request, start to finish: an error ends in the error handler and changes nothing.\<close>

definition respond :: "env \<Rightarrow> server \<Rightarrow> incoming \<Rightarrow> response \<times> server" where
  "respond e s inc = (case app e s inc of Inl err \<Rightarrow> (errorHandler err, s) | Inr r \<Rightarrow> r)"

text \<open>The same for a request whose body the parser accepted.\<close>

definition handle :: "env \<Rightarrow> server \<Rightarrow> request \<Rightarrow> response \<times> server" where
  "handle e s req = respond e s (Parsed req)"

text \<open>The state after a sequence of requests.\<close>

fun run :: "env \<Rightarrow> server \<Rightarrow> incoming list \<Rightarrow> server" where
  "run e s [] = s"
| "run e s (inc # incs) = run e (snd (respond e s inc)) incs"

section \<open>Notions the properties are stated with\<close>

text \<open>The request carries a non-empty key that is the configured one.\<close>

definition authorized :: "env \<Rightarrow> request \<Rightarrow> bool" where
  "authorized e req \<longleftrightarrow> (\<exists>k. k \<noteq> [] \<and> x_api_key req = Some k \<and> API_KEY e = Some k)"

text \<open>All five fields of a stored product hold a value of the declared type.\<close>

definition well_typed :: "product \<Rightarrow> bool" where
  "well_typed p \<longleftrightarrow>
     typeof (name p) = T_string \<and> typeof (description p) = T_string \<and>
     typeof (price p) = T_number \<and> typeof (category p) = T_string \<and>
     typeof (inStock p) = T_boolean"

text \<open>A body property is there and has the given type.\<close>

definition has_type :: "(string \<rightharpoonup> jval) \<Rightarrow> string \<Rightarrow> jstype \<Rightarrow> bool" where
  "has_type b k t = (case b k of None \<Rightarrow> False | Some v \<Rightarrow> typeof v = t)"

text \<open>A body with all five fields present, each of its declared type.\<close>

definition declared_types :: "(string \<rightharpoonup> jval) \<Rightarrow> bool" where
  "declared_types b \<longleftrightarrow>
     has_type b ''name'' T_string \<and> has_type b ''description'' T_string \<and>
     has_type b ''price'' T_number \<and> has_type b ''category'' T_string \<and>
     has_type b ''inStock'' T_boolean"

text \<open>
  The identifiers issued so far: those of the seed records and the results of the calls of
  the generator made up to now.
\<close>

definition issued :: "env \<Rightarrow> server \<Rightarrow> string set" where
  "issued e s = product_id ` set seed \<union> uuidv4 e ` {..<uuid_calls s}"

text \<open>
  What the program relies on from the generator: no two calls return the same string, and
  no call returns the identifier of a seed record.
\<close>

definition fresh_ids :: "env \<Rightarrow> bool" where
  "fresh_ids e \<longleftrightarrow> inj (uuidv4 e) \<and> (\<forall>n. uuidv4 e n \<notin> product_id ` set seed)"

text \<open>
  A configuration to evaluate the program in: the key of the README's example, and a
  generator whose \<open>n\<close>-th string has \<open>n\<close> trailing zeros. No evaluation below uses a number
  as a property name; \<open>number_to_string\<close> is given the text of 0 throughout.
\<close>

definition sample_env :: env where
  "sample_env =
     \<lparr> API_KEY = Some ''mysecretkey254'', uuidv4 = (\<lambda>n. ''uuid-'' @ replicate n CHR ''0''),
       number_to_string = (\<lambda>x. ''0'') \<rparr>"

text \<open>A request that carries that key.\<close>

definition sample_request ::
  "http_method \<Rightarrow> string list \<Rightarrow> (string \<rightharpoonup> string) \<Rightarrow> (string \<rightharpoonup> jval) \<Rightarrow> request"
where
  "sample_request m p q b =
     \<lparr> req_method = m, path = p, x_api_key = Some ''mysecretkey254'', query = q, body = b \<rparr>"

text \<open>
  The invariant of the collection: identifiers are pairwise different, every product is
  well typed, and every identifier in the collection has been issued.
\<close>

definition invariant :: "env \<Rightarrow> server \<Rightarrow> bool" where
  "invariant e s \<longleftrightarrow>
     distinct (map product_id (products s)) \<and> list_all well_typed (products s) \<and>
     product_id ` set (products s) \<subseteq> issued e s"

text \<open>A create, an update with falsy values and a delete, to evaluate the program on.\<close>

definition sample_ops :: "incoming list" where
  "sample_ops =
    [ Parsed (sample_request POST [''api'', ''products''] Map.empty
        [''name'' \<mapsto> JStr ''Kettle'', ''description'' \<mapsto> JStr ''Electric kettle'',
         ''price'' \<mapsto> JNum 30, ''category'' \<mapsto> JStr ''kitchen'', ''inStock'' \<mapsto> JBool False]),
      Parsed (sample_request PUT [''api'', ''products'', ''1''] Map.empty
        [''price'' \<mapsto> JNum 0, ''name'' \<mapsto> JNull, ''inStock'' \<mapsto> JBool False]),
      Parsed (sample_request DELETE [''api'', ''products'', ''2''] Map.empty Map.empty),
      Failed 400 ''Unexpected end of JSON input''
        (sample_request POST [''api'', ''products''] Map.empty Map.empty) ]"

text \<open>
  The products a list request selects, in the words of the specification: those of the
  category asked for when one is given (and not empty), all products otherwise.
\<close>

definition matching :: "server \<Rightarrow> (string \<rightharpoonup> string) \<Rightarrow> product list" where
  "matching s q =
     (case q ''category'' of
        None \<Rightarrow> products s
      | Some c \<Rightarrow> if c = [] then products s else filter (\<lambda>p. category p = JStr c) (products s))"

text \<open>A number that is at least a given bound.\<close>

definition beyond :: "int \<Rightarrow> number \<Rightarrow> bool" where
  "beyond l x \<longleftrightarrow> x = PosInf \<or> (\<exists>m. x = Fin m \<and> l \<le> m)"

section \<open>Basic facts\<close>

lemma same_literal_refl [simp]: "same_literal l l"
  by (simp add: same_literal_def)

lemma handle_routing:
  "handle e s req = (case routing e s req of Inl err \<Rightarrow> (errorHandler err, s) | Inr r \<Rightarrow> r)"
  by (simp add: handle_def respond_def app_def)

lemma respond_Parsed: "respond e s (Parsed req) = handle e s req"
  by (simp add: handle_def)

lemma respond_Failed:
  "respond e s (Failed c m req) =
     (\<lparr> status = (if c = 0 then 500 else c), payload = Failure m \<rparr>, s)"
  by (simp add: respond_def app_def errorHandler_def)

subsection \<open>Finding a product\<close>

lemma findIndex_Some:
  "findIndex P xs = Some k \<Longrightarrow> k < length xs \<and> P (xs ! k) \<and> (\<forall>j<k. \<not> P (xs ! j))"
proof (induction xs arbitrary: k)
  case Nil
  then show ?case by simp
next
  case (Cons x xs)
  show ?case
  proof (cases "P x")
    case True
    with Cons.prems show ?thesis by simp
  next
    case False
    with Cons.prems obtain k' where k': "findIndex P xs = Some k'" "k = Suc k'"
      by auto
    from Cons.IH [OF k'(1)] False k'(2) show ?thesis
      by (auto simp: less_Suc_eq_0_disj)
  qed
qed

lemma findIndex_None: "findIndex P xs = None \<longleftrightarrow> (\<forall>x\<in>set xs. \<not> P x)"
  by (induction xs) auto

lemma authMiddleware_None: "authMiddleware e req = None \<longleftrightarrow> authorized e req"
  by (auto simp: authMiddleware_def authorized_def split: option.splits)

lemma authorized_sample: "authorized sample_env (sample_request m p q b)"
  by (simp add: authorized_def sample_env_def sample_request_def)

subsection \<open>What a request can do to the state\<close>

lemma getProduct_state: "getProduct s i = Inr (r, s') \<Longrightarrow> s' = s"
  by (auto simp: getProduct_def split: option.splits)

lemma searchProducts_state: "searchProducts s q = Inr (r, s') \<Longrightarrow> s' = s"
  by (auto simp: searchProducts_def Let_def split: sum.splits)

lemma count_categories_strings:
  assumes "\<forall>p \<in> set ps. \<exists>c. category p = JStr c"
  shows "count_categories e acc ps
    = Inr (foldl count_key acc (map (\<lambda>p. case category p of JStr c \<Rightarrow> c | _ \<Rightarrow> []) ps))"
  using assms by (induction ps arbitrary: acc) auto

lemma productStats_state: "productStats e s = Inr (r, s') \<Longrightarrow> s' = s"
  by (auto simp: productStats_def split: sum.splits)

lemma run_endpoint_preserves:
  assumes "Q s"
    and "\<And>r s'. createProduct e s (body req) = Inr (r, s') \<Longrightarrow> Q s'"
    and "\<And>i r s'. updateProduct s i (body req) = Inr (r, s') \<Longrightarrow> Q s'"
    and "\<And>i r s'. deleteProduct s i = Inr (r, s') \<Longrightarrow> Q s'"
    and "run_endpoint e s req h params = Inr (r, s')"
  shows "Q s'"
proof (cases h)
  case ListProducts
  with assms(1,5) show ?thesis by (simp add: run_endpoint_def)
next
  case GetProduct
  with assms(1,5) show ?thesis by (auto simp: run_endpoint_def dest: getProduct_state)
next
  case CreateProduct
  with assms(2,5) show ?thesis by (simp add: run_endpoint_def)
next
  case UpdateProduct
  with assms(3,5) show ?thesis by (simp add: run_endpoint_def)
next
  case DeleteProduct
  with assms(4,5) show ?thesis by (simp add: run_endpoint_def)
next
  case SearchProducts
  with assms(1,5) show ?thesis by (auto simp: run_endpoint_def dest: searchProducts_state)
next
  case ProductStats
  with assms(1,5) show ?thesis by (auto simp: run_endpoint_def dest: productStats_state)
qed

lemma routing_preserves:
  assumes "Q s"
    and "\<And>r s'. createProduct e s (body req) = Inr (r, s') \<Longrightarrow> Q s'"
    and "\<And>i r s'. updateProduct s i (body req) = Inr (r, s') \<Longrightarrow> Q s'"
    and "\<And>i r s'. deleteProduct s i = Inr (r, s') \<Longrightarrow> Q s'"
    and "routing e s req = Inr (r, s')"
  shows "Q s'"
proof (cases "path req")
  case Nil
  with assms(1,5) show ?thesis by (auto simp: routing_def split: if_splits)
next
  case (Cons x rest)
  show ?thesis
  proof (cases "same_literal ''api'' x")
    case False
    with Cons assms(1,5) show ?thesis by (simp add: routing_def)
  next
    case True
    with Cons assms(5) have api: "apiRouter e s req rest = Inr (r, s')"
      by (simp add: routing_def)
    show ?thesis
    proof (cases "dispatch routes (req_method req) rest")
      case None
      with api assms(1) show ?thesis
        by (auto simp: apiRouter_def split: option.splits)
    next
      case (Some hp)
      obtain h params where hp: "hp = (h, params)" by (cases hp)
      from api Some hp have "run_endpoint e s req h params = Inr (r, s')"
        by (auto simp: apiRouter_def split: option.splits)
      from run_endpoint_preserves [of Q, OF assms(1-4) this] show ?thesis .
    qed
  qed
qed

lemma handle_preserves:
  assumes "Q s"
    and "\<And>r s'. createProduct e s (body req) = Inr (r, s') \<Longrightarrow> Q s'"
    and "\<And>i r s'. updateProduct s i (body req) = Inr (r, s') \<Longrightarrow> Q s'"
    and "\<And>i r s'. deleteProduct s i = Inr (r, s') \<Longrightarrow> Q s'"
  shows "Q (snd (handle e s req))"
proof (cases "routing e s req")
  case (Inl err)
  with assms(1) show ?thesis by (simp add: handle_routing)
next
  case (Inr rs)
  obtain r s' where rs: "rs = (r, s')" by (cases rs)
  from routing_preserves [of Q, OF assms] Inr rs have "Q s'" by simp
  with Inr rs show ?thesis by (simp add: handle_routing)
qed

lemma respond_preserves:
  assumes "Q s"
    and "\<And>(req :: request) r s'. createProduct e s (body req) = Inr (r, s') \<Longrightarrow> Q s'"
    and "\<And>(req :: request) i r s'. updateProduct s i (body req) = Inr (r, s') \<Longrightarrow> Q s'"
    and "\<And>i r s'. deleteProduct s i = Inr (r, s') \<Longrightarrow> Q s'"
  shows "Q (snd (respond e s inc))"
proof (cases inc)
  case (Failed c m req)
  with assms(1) show ?thesis by (simp add: respond_Failed)
next
  case (Parsed req)
  from assms(1) assms(2) [of req] assms(3) [of _ req] assms(4)
  have "Q (snd (handle e s req))" by (rule handle_preserves)
  with Parsed show ?thesis by (simp add: respond_Parsed)
qed

lemma run_preserves:
  assumes "Q s" and "\<And>s inc. Q s \<Longrightarrow> Q (snd (respond e s inc))"
  shows "Q (run e s incs)"
  using assms(1)
proof (induction incs arbitrary: s)
  case Nil
  then show ?case by simp
next
  case (Cons inc incs)
  from Cons.prems have "Q (snd (respond e s inc))" by (rule assms(2))
  then show ?case by (simp add: Cons.IH)
qed

subsection \<open>Successful runs of the handlers that write\<close>

lemma product_id_merge: "product_id (merge p b) = product_id p"
  by (simp add: merge_def)

lemma map_update_same:
  "k < length xs \<Longrightarrow> f y = f (xs ! k) \<Longrightarrow> map f (xs[k := y]) = map f xs"
  by (metis list_update_id map_update nth_map)

lemma set_splice1: "set (splice1 k xs) \<subseteq> set xs"
  by (auto simp: splice1_def dest: in_set_takeD in_set_dropD)

lemma createProduct_Inr:
  "createProduct e s b = Inr (r, s') \<Longrightarrow>
     validateProductCreation b = None \<and>
     (\<exists>p. product_id p = uuidv4 e (uuid_calls s) \<and> name p = body_prop b ''name'' \<and>
          description p = body_prop b ''description'' \<and> price p = body_prop b ''price'' \<and>
          category p = body_prop b ''category'' \<and> inStock p = body_prop b ''inStock'' \<and>
          r = \<lparr> status = 201, payload = One p \<rparr> \<and>
          s' = s \<lparr> products := products s @ [p], uuid_calls := Suc (uuid_calls s) \<rparr>)"
  by (auto simp: createProduct_def Let_def split: option.splits)

lemma updateProduct_Inr:
  "updateProduct s i b = Inr (r, s') \<Longrightarrow>
     validateProductUpdate b = None \<and>
     (\<exists>k. findIndex (\<lambda>p. product_id p = i) (products s) = Some k \<and>
          r = \<lparr> status = 200, payload = One (merge (products s ! k) b) \<rparr> \<and>
          s' = s \<lparr> products := (products s)[k := merge (products s ! k) b] \<rparr>)"
  by (auto simp: updateProduct_def Let_def split: option.splits)

lemma deleteProduct_Inr:
  "deleteProduct s i = Inr (r, s') \<Longrightarrow>
     (\<exists>k. findIndex (\<lambda>p. product_id p = i) (products s) = Some k \<and>
          r = \<lparr> status = 204, payload = Empty \<rparr> \<and>
          s' = s \<lparr> products := splice1 k (products s) \<rparr>)"
  by (auto simp: deleteProduct_def split: option.splits)

subsection \<open>Where the identifiers come from\<close>

lemma respond_ids:
  assumes "product_id ` set (products s) \<subseteq> A \<union> range (uuidv4 e)"
  shows "product_id ` set (products (snd (respond e s inc))) \<subseteq> A \<union> range (uuidv4 e)"
proof (rule respond_preserves [where Q = "\<lambda>s. product_id ` set (products s) \<subseteq> A \<union> range (uuidv4 e)"])
  show "product_id ` set (products s) \<subseteq> A \<union> range (uuidv4 e)" by (rule assms)
next
  fix req r s'
  assume "createProduct e s (body req) = Inr (r, s')"
  from createProduct_Inr [OF this] obtain p where
    p: "product_id p = uuidv4 e (uuid_calls s)"
    and s': "s' = s \<lparr> products := products s @ [p], uuid_calls := Suc (uuid_calls s) \<rparr>"
    by blast
  have "product_id ` set (products s') = insert (product_id p) (product_id ` set (products s))"
    by (simp add: s')
  with p assms show "product_id ` set (products s') \<subseteq> A \<union> range (uuidv4 e)" by auto
next
  fix req i r s'
  assume "updateProduct s i (body req) = Inr (r, s')"
  from updateProduct_Inr [OF this] obtain k where
    k: "findIndex (\<lambda>p. product_id p = i) (products s) = Some k"
    and s': "s' = s \<lparr> products := (products s)[k := merge (products s ! k) (body req)] \<rparr>"
    by blast
  from findIndex_Some [OF k] have "k < length (products s)" by simp
  then have "map product_id (products s') = map product_id (products s)"
    by (simp add: s' map_update_same product_id_merge)
  then have "product_id ` set (products s') = product_id ` set (products s)"
    by (metis set_map)
  with assms show "product_id ` set (products s') \<subseteq> A \<union> range (uuidv4 e)" by simp
next
  fix i r s'
  assume "deleteProduct s i = Inr (r, s')"
  from deleteProduct_Inr [OF this] obtain k where
    s': "s' = s \<lparr> products := splice1 k (products s) \<rparr>" by blast
  with assms set_splice1 [of k "products s"]
  show "product_id ` set (products s') \<subseteq> A \<union> range (uuidv4 e)" by auto
qed

lemma run_ids:
  "product_id ` set (products (run e initial reqs)) \<subseteq> product_id ` set seed \<union> range (uuidv4 e)"
  by (rule run_preserves [where Q = "\<lambda>s. product_id ` set (products s) \<subseteq> product_id ` set seed \<union> range (uuidv4 e)"])
     (simp_all add: initial_def respond_ids)

subsection \<open>Dispatch\<close>

lemma dispatch_get_param:
  "dispatch routes GET [''products'', w] = Some (GetProduct, [w])"
  by (simp add: routes_def)

lemma dispatch_never_search_stats:
  assumes "dispatch routes m p = Some (h, params)"
  shows "h \<noteq> SearchProducts \<and> h \<noteq> ProductStats"
proof (cases p)
  case Nil
  with assms show ?thesis by (cases m) (simp_all add: routes_def)
next
  case (Cons x xs)
  note p1 = this
  show ?thesis
  proof (cases xs)
    case Nil
    with p1 assms show ?thesis by (cases m) (auto simp: routes_def split: if_splits)
  next
    case (Cons y ys)
    note p2 = this
    show ?thesis
    proof (cases ys)
      case Nil
      with p1 p2 assms show ?thesis by (cases m) (auto simp: routes_def split: if_splits)
    next
      case (Cons z zs)
      with p1 p2 assms show ?thesis by (cases m) (auto simp: routes_def split: if_splits)
    qed
  qed
qed

subsection \<open>The validators\<close>

lemma validateProductCreation_None:
  "validateProductCreation b = None \<longleftrightarrow>
     truthy (body_prop b ''name'') \<and> truthy (body_prop b ''description'') \<and>
     truthy (body_prop b ''price'') \<and> truthy (body_prop b ''category'') \<and>
     typeof (body_prop b ''name'') = T_string \<and> typeof (body_prop b ''description'') = T_string \<and>
     typeof (body_prop b ''price'') = T_number \<and> typeof (body_prop b ''category'') = T_string \<and>
     typeof (body_prop b ''inStock'') = T_boolean"
proof -
  have u: "typeof v = T_boolean \<Longrightarrow> v \<noteq> JUndefined" for v by auto
  show ?thesis
    unfolding validateProductCreation_def Let_def using u by auto
qed

lemma validateProductUpdate_None:
  "validateProductUpdate b = None \<longleftrightarrow>
     (truthy (body_prop b ''name'') \<longrightarrow> typeof (body_prop b ''name'') = T_string) \<and>
     (truthy (body_prop b ''description'') \<longrightarrow> typeof (body_prop b ''description'') = T_string) \<and>
     (truthy (body_prop b ''price'') \<longrightarrow> typeof (body_prop b ''price'') = T_number) \<and>
     (truthy (body_prop b ''category'') \<longrightarrow> typeof (body_prop b ''category'') = T_string) \<and>
     (body_prop b ''inStock'' \<noteq> JUndefined \<longrightarrow> typeof (body_prop b ''inStock'') = T_boolean)"
  unfolding validateProductUpdate_def Let_def by auto

lemma well_typed_created:
  assumes "validateProductCreation b = None"
  shows "well_typed \<lparr> product_id = i, name = body_prop b ''name'',
            description = body_prop b ''description'', price = body_prop b ''price'',
            category = body_prop b ''category'', inStock = body_prop b ''inStock'' \<rparr>"
  using assms by (simp add: validateProductCreation_None well_typed_def)

lemma well_typed_merge:
  assumes "validateProductUpdate b = None" and "well_typed p"
  shows "well_typed (merge p b)"
  using assms
  by (simp add: validateProductUpdate_None well_typed_def merge_def js_or_def)

subsection \<open>Preservation of the invariant\<close>

lemma fresh_not_issued: "fresh_ids e \<Longrightarrow> uuidv4 e (uuid_calls s) \<notin> issued e s"
  by (auto simp: fresh_ids_def issued_def inj_def)

lemma distinct_take_drop: "distinct ys \<Longrightarrow> distinct (take k ys @ drop (Suc k) ys)"
proof (induction ys arbitrary: k)
  case Nil
  then show ?case by simp
next
  case (Cons y ys)
  show ?case
  proof (cases k)
    case 0
    with Cons.prems show ?thesis by simp
  next
    case (Suc k')
    with Cons.prems Cons.IH [of k'] show ?thesis
      by (auto dest: in_set_takeD in_set_dropD)
  qed
qed

lemma distinct_splice1: "distinct (map f xs) \<Longrightarrow> distinct (map f (splice1 k xs))"
  using distinct_take_drop [of "map f xs" k] by (simp add: splice1_def take_map drop_map)


lemma issued_products_update [simp]: "issued e (s \<lparr> products := ps \<rparr>) = issued e s"
  by (simp add: issued_def)

lemma issued_Suc:
  "issued e (s \<lparr> products := ps, uuid_calls := Suc (uuid_calls s) \<rparr>)
     = insert (uuidv4 e (uuid_calls s)) (issued e s)"
  by (auto simp: issued_def lessThan_Suc)

lemma invariant_create:
  assumes f: "fresh_ids e" and i: "invariant e s"
    and c: "createProduct e s b = Inr (r, s')"
  shows "invariant e s'"
proof -
  from createProduct_Inr [OF c] obtain p where
    v: "validateProductCreation b = None"
    and p: "product_id p = uuidv4 e (uuid_calls s)" "name p = body_prop b ''name''"
      "description p = body_prop b ''description''" "price p = body_prop b ''price''"
      "category p = body_prop b ''category''" "inStock p = body_prop b ''inStock''"
    and s': "s' = s \<lparr> products := products s @ [p], uuid_calls := Suc (uuid_calls s) \<rparr>"
    by blast
  from v p have wt: "well_typed p"
    by (simp add: validateProductCreation_None well_typed_def)
  from fresh_not_issued [OF f, of s] i p(1) have new: "product_id p \<notin> product_id ` set (products s)"
    by (auto simp: invariant_def)
  from i new have "distinct (map product_id (products s'))"
    by (simp add: s' invariant_def)
  moreover from i wt have "list_all well_typed (products s')"
    by (simp add: s' invariant_def)
  moreover from i p(1) have "product_id ` set (products s') \<subseteq> issued e s'"
    unfolding s' issued_Suc by (auto simp: invariant_def)
  ultimately show ?thesis by (simp add: invariant_def)
qed

lemma invariant_update:
  assumes i: "invariant e s" and u: "updateProduct s j b = Inr (r, s')"
  shows "invariant e s'"
proof -
  from updateProduct_Inr [OF u] obtain k where
    v: "validateProductUpdate b = None"
    and k: "findIndex (\<lambda>p. product_id p = j) (products s) = Some k"
    and s': "s' = s \<lparr> products := (products s)[k := merge (products s ! k) b] \<rparr>"
    by blast
  from findIndex_Some [OF k] have kl: "k < length (products s)" by simp
  then have ids: "map product_id (products s') = map product_id (products s)"
    by (simp add: s' map_update_same product_id_merge)
  from i kl have "well_typed (products s ! k)"
    by (simp add: invariant_def list_all_length)
  with v have "well_typed (merge (products s ! k) b)" by (rule well_typed_merge)
  with i have wt: "list_all well_typed (products s')"
    by (auto simp: s' invariant_def list_all_iff dest: set_update_subset_insert [THEN subsetD])
  from ids have "product_id ` set (products s') = product_id ` set (products s)"
    by (metis set_map)
  with i ids wt show ?thesis by (simp add: invariant_def s')
qed

lemma invariant_delete:
  assumes i: "invariant e s" and d: "deleteProduct s j = Inr (r, s')"
  shows "invariant e s'"
proof -
  from deleteProduct_Inr [OF d] obtain k where
    s': "s' = s \<lparr> products := splice1 k (products s) \<rparr>" by blast
  from i have "distinct (map product_id (products s'))"
    by (simp add: s' invariant_def distinct_splice1)
  moreover from i set_splice1 [of k "products s"] have "list_all well_typed (products s')"
    by (auto simp: s' invariant_def list_all_iff)
  moreover from i set_splice1 [of k "products s"]
  have "product_id ` set (products s') \<subseteq> issued e s'"
    by (auto simp: s' invariant_def)
  ultimately show ?thesis by (simp add: invariant_def)
qed

lemma respond_invariant:
  assumes "fresh_ids e" and "invariant e s"
  shows "invariant e (snd (respond e s inc))"
  by (rule respond_preserves [where Q = "invariant e"])
     (auto intro: assms invariant_create [OF assms] invariant_update [OF assms(2)]
        invariant_delete [OF assms(2)])

lemma invariant_initial: "invariant e initial"
  by (simp add: invariant_def initial_def seed_def well_typed_def issued_def)

lemma run_invariant: "fresh_ids e \<Longrightarrow> invariant e (run e initial reqs)"
  by (rule run_preserves [where Q = "invariant e"]) (simp_all add: invariant_initial respond_invariant)

lemma well_typed_set:
  assumes "well_typed p"
  shows "name p \<noteq> JNull \<and> name p \<noteq> JUndefined \<and> description p \<noteq> JNull \<and>
    description p \<noteq> JUndefined \<and> price p \<noteq> JNull \<and> price p \<noteq> JUndefined \<and>
    category p \<noteq> JNull \<and> category p \<noteq> JUndefined \<and> inStock p \<noteq> JNull \<and>
    inStock p \<noteq> JUndefined"
  using assms by (auto simp: well_typed_def)

lemma fresh_ids_sample: "fresh_ids sample_env"
  by (auto simp: fresh_ids_def sample_env_def inj_def seed_def)

subsection \<open>Authorized requests, route by route\<close>

lemma routing_list:
  "authorized e req \<Longrightarrow> req_method req = GET \<Longrightarrow> path req = [''api'', ''products''] \<Longrightarrow>
     routing e s req = Inr (listProducts s (query req), s)"
  using authMiddleware_None [of e req]
  by (simp add: routing_def apiRouter_def routes_def run_endpoint_def)

lemma routing_get:
  "authorized e req \<Longrightarrow> req_method req = GET \<Longrightarrow> path req = [''api'', ''products'', i] \<Longrightarrow>
     routing e s req = getProduct s i"
  using authMiddleware_None [of e req]
  by (simp add: routing_def apiRouter_def routes_def run_endpoint_def param_id_def)

lemma routing_post:
  "authorized e req \<Longrightarrow> req_method req = POST \<Longrightarrow> path req = [''api'', ''products''] \<Longrightarrow>
     routing e s req = createProduct e s (body req)"
  using authMiddleware_None [of e req]
  by (simp add: routing_def apiRouter_def routes_def run_endpoint_def)

lemma routing_put:
  "authorized e req \<Longrightarrow> req_method req = PUT \<Longrightarrow> path req = [''api'', ''products'', i] \<Longrightarrow>
     routing e s req = updateProduct s i (body req)"
  using authMiddleware_None [of e req]
  by (simp add: routing_def apiRouter_def routes_def run_endpoint_def param_id_def)

lemma routing_delete:
  "authorized e req \<Longrightarrow> req_method req = DELETE \<Longrightarrow> path req = [''api'', ''products'', i] \<Longrightarrow>
     routing e s req = deleteProduct s i"
  using authMiddleware_None [of e req]
  by (simp add: routing_def apiRouter_def routes_def run_endpoint_def param_id_def)

subsection \<open>Deletion\<close>

lemma splice1_Cons_Suc: "splice1 (Suc k) (x # xs) = x # splice1 k xs"
  by (simp add: splice1_def)

lemma splice1_findIndex_filter:
  "distinct (map f xs) \<Longrightarrow> findIndex (\<lambda>p. f p = i) xs = Some k \<Longrightarrow>
     splice1 k xs = filter (\<lambda>p. f p \<noteq> i) xs"
proof (induction xs arbitrary: k)
  case Nil
  then show ?case by simp
next
  case (Cons x xs)
  show ?case
  proof (cases "f x = i")
    case True
    with Cons.prems have "k = 0" by simp
    moreover from True Cons.prems(1) have "\<forall>y\<in>set xs. f y \<noteq> i" by (auto simp: image_iff)
    ultimately show ?thesis using True by (simp add: splice1_def)
  next
    case False
    with Cons.prems obtain k' where k': "findIndex (\<lambda>p. f p = i) xs = Some k'" "k = Suc k'"
      by auto
    with Cons.IH [of k'] Cons.prems(1) False show ?thesis
      by (simp add: splice1_Cons_Suc)
  qed
qed

lemma getProduct_absent:
  "i \<notin> product_id ` set (products s) \<Longrightarrow> getProduct s i = Inl (NotFoundError ''Product not found'')"
  by (auto simp: getProduct_def find_None_iff split: option.splits)

lemma deleteProduct_absent:
  "i \<notin> product_id ` set (products s) \<Longrightarrow> deleteProduct s i = Inl (NotFoundError ''Product not found'')"
  by (auto simp: deleteProduct_def findIndex_None split: option.splits)

lemma deleteProduct_present:
  assumes "distinct (map product_id (products s))" and "i \<in> product_id ` set (products s)"
  shows "deleteProduct s i =
    Inr (\<lparr> status = 204, payload = Empty \<rparr>,
         s \<lparr> products := filter (\<lambda>p. product_id p \<noteq> i) (products s) \<rparr>)"
proof -
  from assms(2) have "findIndex (\<lambda>p. product_id p = i) (products s) \<noteq> None"
    by (auto simp: findIndex_None)
  then obtain k where k: "findIndex (\<lambda>p. product_id p = i) (products s) = Some k" by auto
  from splice1_findIndex_filter [OF assms(1) k] k show ?thesis
    by (simp add: deleteProduct_def)
qed

lemma length_splice1: "k < length xs \<Longrightarrow> length (splice1 k xs) + 1 = length xs"
  by (simp add: splice1_def)

lemma deleteProduct_length:
  assumes "distinct (map product_id (products s))" and "i \<in> product_id ` set (products s)"
  shows "length (filter (\<lambda>p. product_id p \<noteq> i) (products s)) + 1 = length (products s)"
proof -
  from assms(2) have "findIndex (\<lambda>p. product_id p = i) (products s) \<noteq> None"
    by (auto simp: findIndex_None)
  then obtain k where k: "findIndex (\<lambda>p. product_id p = i) (products s) = Some k" by auto
  from findIndex_Some [OF k] have "k < length (products s)" by simp
  from length_splice1 [OF this] splice1_findIndex_filter [OF assms(1) k] show ?thesis by simp
qed

lemma handle_Inl: "routing e s req = Inl err \<Longrightarrow> handle e s req = (errorHandler err, s)"
  by (simp add: handle_routing)

lemma handle_Inr: "routing e s req = Inr r \<Longrightarrow> handle e s req = r"
  by (simp add: handle_routing)

lemma errorHandler_NotFound:
  "errorHandler (NotFoundError m) = \<lparr> status = 404, payload = Failure m \<rparr>"
  by (simp add: errorHandler_def)

subsection \<open>Update\<close>

lemma findIndex_present:
  assumes "i \<in> f ` set xs"
  obtains k where "findIndex (\<lambda>p. f p = i) xs = Some k" "k < length xs" "f (xs ! k) = i"
proof -
  from assms have "findIndex (\<lambda>p. f p = i) xs \<noteq> None"
    by (auto simp: findIndex_None)
  then obtain k where k: "findIndex (\<lambda>p. f p = i) xs = Some k" by auto
  from findIndex_Some [OF k] k that show ?thesis by blast
qed

lemma handle_put:
  assumes "authorized e req" and "req_method req = PUT" and "path req = [''api'', ''products'', i]"
    and "validateProductUpdate (body req) = None"
    and "findIndex (\<lambda>p. product_id p = i) (products s) = Some k"
  shows "handle e s req =
    (\<lparr> status = 200, payload = One (merge (products s ! k) (body req)) \<rparr>,
     s \<lparr> products := (products s)[k := merge (products s ! k) (body req)] \<rparr>)"
  using assms(4,5) by (simp add: handle_routing routing_put [OF assms(1-3)] updateProduct_def Let_def)

lemma validateProductUpdate_price_only: "validateProductUpdate [''price'' \<mapsto> JNum n] = None"
  by (simp add: validateProductUpdate_None body_prop_def)

lemma merge_price_only:
  "n \<noteq> 0 \<Longrightarrow> merge old [''price'' \<mapsto> JNum n] = old \<lparr> price := JNum n \<rparr>"
  by (simp add: merge_def js_or_def body_prop_def)

subsection \<open>Creation\<close>

lemma has_type_body_prop: "has_type b k t \<Longrightarrow> typeof (body_prop b k) = t"
  by (simp add: has_type_def body_prop_def split: option.splits)

lemma body_prop_has_type:
  "typeof (body_prop b k) = t \<Longrightarrow> t \<noteq> T_undefined \<Longrightarrow> has_type b k t"
  by (auto simp: has_type_def body_prop_def split: option.splits)

lemma string_truthy:
  "has_type b k T_string \<Longrightarrow> b k \<noteq> Some (JStr []) \<Longrightarrow> truthy (body_prop b k)"
proof -
  assume h: "has_type b k T_string" and n: "b k \<noteq> Some (JStr [])"
  from h obtain v where v: "b k = Some v" "typeof v = T_string"
    by (auto simp: has_type_def split: option.splits)
  then obtain x where "v = JStr x" by (cases v) auto
  with v n show ?thesis by (simp add: body_prop_def)
qed

lemma number_truthy:
  "has_type b k T_number \<Longrightarrow> b k \<noteq> Some (JNum 0) \<Longrightarrow> truthy (body_prop b k)"
proof -
  assume h: "has_type b k T_number" and n: "b k \<noteq> Some (JNum 0)"
  from h obtain v where v: "b k = Some v" "typeof v = T_number"
    by (auto simp: has_type_def split: option.splits)
  then obtain x where "v = JNum x" by (cases v) auto
  with v n show ?thesis by (simp add: body_prop_def)
qed

lemma declared_types_valid:
  assumes "declared_types b" and "b ''name'' \<noteq> Some (JStr [])"
    and "b ''description'' \<noteq> Some (JStr [])" and "b ''price'' \<noteq> Some (JNum 0)"
    and "b ''category'' \<noteq> Some (JStr [])"
  shows "validateProductCreation b = None"
  using assms
  by (simp add: validateProductCreation_None declared_types_def has_type_body_prop
      string_truthy number_truthy)

lemma valid_declared_types: "validateProductCreation b = None \<Longrightarrow> declared_types b"
  by (simp add: validateProductCreation_None declared_types_def body_prop_has_type)

lemma validateProductCreation_cases:
  "validateProductCreation b = None
   \<or> validateProductCreation b = Some (ValidationError ''All fields are required'')
   \<or> validateProductCreation b = Some (ValidationError ''Invalid data types'')"
  unfolding validateProductCreation_def Let_def by simp

lemma body_prop_Some: "has_type b k t \<Longrightarrow> b k = Some (body_prop b k)"
  by (simp add: has_type_def body_prop_def split: option.splits)

lemma handle_post_valid:
  assumes "authorized e req" and "req_method req = POST" and "path req = [''api'', ''products'']"
    and "validateProductCreation (body req) = None"
  shows "handle e s req =
    (\<lparr> status = 201,
       payload = One \<lparr> product_id = uuidv4 e (uuid_calls s),
                  name = body_prop (body req) ''name'',
                  description = body_prop (body req) ''description'',
                  price = body_prop (body req) ''price'',
                  category = body_prop (body req) ''category'',
                  inStock = body_prop (body req) ''inStock'' \<rparr> \<rparr>,
     s \<lparr> products := products s @
            [\<lparr> product_id = uuidv4 e (uuid_calls s),
                  name = body_prop (body req) ''name'',
                  description = body_prop (body req) ''description'',
                  price = body_prop (body req) ''price'',
                  category = body_prop (body req) ''category'',
                  inStock = body_prop (body req) ''inStock'' \<rparr>],
         uuid_calls := Suc (uuid_calls s) \<rparr>)"
  using assms(4) by (simp add: handle_routing routing_post [OF assms(1-3)] createProduct_def Let_def)

lemma handle_post_invalid:
  assumes "authorized e req" and "req_method req = POST" and "path req = [''api'', ''products'']"
    and "validateProductCreation (body req) = Some (ValidationError msg)"
  shows "handle e s req = (\<lparr> status = 400, payload = Failure msg \<rparr>, s)"
  using assms(4)
  by (simp add: handle_routing routing_post [OF assms(1-3)] createProduct_def errorHandler_def)

lemma falsy_as_absent:
  assumes "k \<in> {''name'', ''description'', ''price'', ''category''}" and "\<not> truthy v"
  shows "validateProductCreation (b(k \<mapsto> v)) = Some (ValidationError ''All fields are required'')"
    and "validateProductCreation (b(k := None)) = Some (ValidationError ''All fields are required'')"
  using assms by (auto simp: validateProductCreation_def body_prop_def Let_def)

lemma falsy_rejected:
  assumes "\<not> truthy (body_prop b ''name'') \<or> \<not> truthy (body_prop b ''description'')
      \<or> \<not> truthy (body_prop b ''price'') \<or> \<not> truthy (body_prop b ''category'')"
  shows "validateProductCreation b = Some (ValidationError ''All fields are required'')"
  using assms unfolding validateProductCreation_def Let_def by auto

lemma merge_falsy:
  "\<not> truthy (body_prop b ''name'') \<longrightarrow> name (merge old b) = name old"
  "\<not> truthy (body_prop b ''description'') \<longrightarrow> description (merge old b) = description old"
  "\<not> truthy (body_prop b ''price'') \<longrightarrow> price (merge old b) = price old"
  "\<not> truthy (body_prop b ''category'') \<longrightarrow> category (merge old b) = category old"
  "\<forall>x. b ''inStock'' = Some (JBool x) \<longrightarrow> inStock (merge old b) = JBool x"
  by (simp_all add: merge_def js_or_def body_prop_def)

subsection \<open>Pagination\<close>

lemma parseInt_1: "parseInt ''1'' = Fin 1"
  by (simp add: parseInt_def is_space_def digit_val_def to_double_def)

lemma parseInt_m1: "parseInt ''-1'' = Fin (- 1)"
  by (simp add: parseInt_def is_space_def digit_val_def to_double_def)

lemma parseInt_2: "parseInt ''2'' = Fin 2"
  by (simp add: parseInt_def is_space_def digit_val_def to_double_def)

lemma bit_length_upper: "n < 2 ^ bit_length n"
proof (induction n rule: bit_length.induct)
  case (1 n)
  show ?case
  proof (cases "n = 0")
    case True
    then show ?thesis by (simp add: bit_length.simps [of 0])
  next
    case False
    with 1 have "n div 2 < 2 ^ bit_length (n div 2)" by simp
    then have "n < 2 * 2 ^ bit_length (n div 2)" by linarith
    with False show ?thesis by (simp add: bit_length.simps [of n])
  qed
qed

lemma bit_length_lower: "0 < n \<Longrightarrow> 2 ^ (bit_length n - 1) \<le> n"
proof (induction n rule: bit_length.induct)
  case (1 n)
  then have n: "n \<noteq> 0" by simp
  show ?case
  proof (cases "n div 2 = 0")
    case True
    with n show ?thesis
      by (simp add: bit_length.simps [of n] bit_length.simps [of 0])
  next
    case False
    with 1 n have ih: "2 ^ (bit_length (n div 2) - 1) \<le> n div 2" by simp
    from False have "bit_length (n div 2) \<noteq> 0"
      by (simp add: bit_length.simps [of "n div 2"])
    then obtain k where k: "bit_length (n div 2) = Suc k" by (cases "bit_length (n div 2)") auto
    with ih have "2 * 2 ^ k \<le> 2 * (n div 2)" by simp
    also have "\<dots> \<le> n" by simp
    finally show ?thesis using n k by (simp add: bit_length.simps [of n])
  qed
qed

lemma bit_length_eq:
  assumes lo: "2 ^ k \<le> n" and hi: "n < 2 ^ Suc k"
  shows "bit_length n = Suc k"
proof -
  from lo bit_length_upper [of n] have "(2::nat) ^ k < 2 ^ bit_length n" by (rule le_less_trans)
  then have 1: "k < bit_length n" by (rule power_less_imp_less_exp [rotated]) simp
  have "(0::nat) < 2 ^ k" by simp
  from this lo have "0 < n" by (rule less_le_trans)
  from bit_length_lower [OF this] hi have "(2::nat) ^ (bit_length n - 1) < 2 ^ Suc k"
    by (rule le_less_trans)
  then have "bit_length n - 1 < Suc k" by (rule power_less_imp_less_exp [rotated]) simp
  with 1 show ?thesis by linarith
qed

lemma bit_length_example: "bit_length 9007199254740993 = 54"
proof -
  have "bit_length 9007199254740993 = Suc 53"
    by (rule bit_length_eq) simp_all
  then show ?thesis by simp
qed

lemma to_double_exact: "\<bar>n\<bar> < 2 ^ 53 \<Longrightarrow> to_double n = Fin n"
proof -
  assume "\<bar>n\<bar> < 2 ^ 53"
  then have "nat \<bar>n\<bar> < 2 ^ 53" by simp
  then show ?thesis by (simp add: to_double_def)
qed

lemma round_magnitude_ge:
  assumes a: "2 ^ 53 \<le> a"
  shows "2 ^ 53 \<le> round_magnitude a"
proof -
  define e where "e = bit_length a - 53"
  define q where "q = a div 2 ^ e"
  define r where "r = a mod 2 ^ e"
  define q' where "q' = (if 2 ^ e < 2 * r \<or> (2 * r = 2 ^ e \<and> odd q) then q + 1 else q)"
  have rm: "round_magnitude a = q' * 2 ^ e"
    by (simp only: round_magnitude_def Let_def q'_def q_def r_def e_def)
  from a bit_length_upper [of a] have up: "(2::nat) ^ 53 < 2 ^ bit_length a"
    by (rule le_less_trans)
  have bl: "53 < bit_length a"
  proof (rule power_less_imp_less_exp)
    show "(1::nat) < 2" by simp
    show "(2::nat) ^ 53 < 2 ^ bit_length a" by (fact up)
  qed
  then have e: "1 \<le> e" and ble: "bit_length a - 1 = 52 + e" by (simp_all add: e_def)
  have "(0::nat) < 2 ^ 53" by simp
  from this a have "0 < a" by (rule less_le_trans)
  from bit_length_lower [OF this] ble have "2 ^ (52 + e) \<le> a" by simp
  then have "2 ^ (52 + e) div 2 ^ e \<le> a div 2 ^ e" by (rule div_le_mono)
  moreover have "(2::nat) ^ (52 + e) div 2 ^ e = 2 ^ 52" by (simp only: power_add) simp
  ultimately have q: "2 ^ 52 \<le> q" by (simp only: q_def)
  have "q \<le> q'" by (simp add: q'_def)
  with q have q52: "2 ^ 52 \<le> q'" by (rule le_trans)
  from e have e1: "(2::nat) ^ 1 \<le> 2 ^ e" by (intro power_increasing) simp_all
  from q52 e1 have "2 ^ 52 * 2 ^ 1 \<le> q' * 2 ^ e" by (rule mult_le_mono)
  moreover have "(2::nat) ^ 52 * 2 ^ 1 = 2 ^ 53" by simp
  ultimately show ?thesis by (simp only: rm)
qed

lemma to_double_big:
  assumes "2 ^ 53 \<le> n"
  shows "beyond (2 ^ 53) (to_double n)"
proof -
  define a where "a = nat \<bar>n\<bar>"
  define m where "m = round_magnitude a"
  have "(0::int) \<le> 2 ^ 53" by simp
  with assms have n0: "0 \<le> n" by linarith
  then have pos: "\<not> n < 0" by simp
  from n0 have an: "int a = n" by (simp add: a_def)
  from assms an have "int (2 ^ 53) \<le> int a" by simp
  then have a: "2 ^ 53 \<le> a" by (simp only: of_nat_le_iff)
  then have na: "\<not> a < 2 ^ 53" by (simp only: not_less)
  from round_magnitude_ge [OF a] have m: "2 ^ 53 \<le> m" by (simp only: m_def)
  then have "int (2 ^ 53) \<le> int m" by (simp only: of_nat_le_iff)
  then have mi: "2 ^ 53 \<le> int m" by simp
  have "to_double n = (if 2 ^ 1024 \<le> m then PosInf else Fin (int m))"
    unfolding to_double_def Let_def a_def [symmetric] m_def [symmetric]
    using na pos by (simp only: if_False)
  with mi show ?thesis by (auto simp only: beyond_def split: if_splits)
qed

text \<open>
  The integer \<open>2\<^sup>5\<^sup>3 + 1\<close> is no double: \<^verbatim>\<open>parseInt\<close> returns its even neighbour. A
  no-break space before the digits is skipped like any other white space.
\<close>

lemma to_double_rounds: "to_double 9007199254740993 = Fin 9007199254740992"
  by (simp add: to_double_def round_magnitude_def bit_length_example Let_def)

lemma parseInt_rounds: "parseInt ''9007199254740993'' = Fin 9007199254740992"
  by (simp add: parseInt_def is_space_def digit_val_def to_double_rounds)

lemma parseInt_nbsp: "parseInt [CHR 0xA0, CHR ''7''] = Fin 7"
  by (simp add: parseInt_def is_space_def digit_val_def to_double_def)

lemma beyond_mono: "l' \<le> l \<Longrightarrow> beyond l x \<Longrightarrow> beyond l' x"
  by (auto simp: beyond_def)

lemma relative_index_beyond: "beyond (int len) x \<Longrightarrow> relative_index len x = int len"
  by (auto simp: beyond_def relative_index_def)

lemma slice_window:
  assumes "0 \<le> a" and "a \<le> b"
  shows "slice xs (Fin a) (Fin b) = take (nat (b - a)) (drop (nat a) xs)"
proof (cases "a < int (length xs)")
  case False
  with assms show ?thesis by (simp add: slice_def relative_index_def Let_def min_def)
next
  case True
  with assms show ?thesis
    by (cases "b \<le> int (length xs)") (simp_all add: slice_def relative_index_def Let_def min_def)
qed

lemma slice_start_beyond:
  assumes "beyond (int (length xs)) start"
  shows "slice xs start fin = []"
  using relative_index_beyond [OF assms] by (simp add: slice_def Let_def)

lemma slice_end_beyond:
  assumes "0 \<le> i" and "beyond (int (length xs)) fin"
  shows "slice xs (Fin i) fin = drop (nat i) xs"
proof -
  have k: "relative_index (length xs) (Fin i) = min i (int (length xs))"
    using assms(1) by (simp add: relative_index_def)
  show ?thesis
    unfolding slice_def Let_def k relative_index_beyond [OF assms(2)]
    using assms(1) by (cases "i \<le> int (length xs)") (simp_all add: min_def)
qed

lemma window_positive:
  assumes a: "0 < a" and b: "0 < b" and len: "int (length xs) < 2 ^ 53"
  shows "slice xs (js_times (js_minus_one (Fin a)) (Fin b)) (js_times (Fin a) (Fin b))
    = take (nat b) (drop (nat ((a - 1) * b)) xs)"
proof -
  define B where "B = (2::int) ^ 53"
  define s where "s = (a - 1) * b"
  define t where "t = a * b"
  have big: "beyond B (to_double n)" if "B \<le> n" for n
    using that unfolding B_def by (rule to_double_big)
  have exact: "to_double n = Fin n" if "0 \<le> n" "n < B" for n
  proof (rule to_double_exact)
    from that show "\<bar>n\<bar> < 2 ^ 53" unfolding B_def by linarith
  qed
  from len have lenB: "int (length xs) < B" unfolding B_def .
  have far: "beyond (int (length xs)) x" if "beyond B x" for x
  proof (rule beyond_mono [of _ B])
    from lenB show "int (length xs) \<le> B" by linarith
    from that show "beyond B x" .
  qed
  from a b have s0: "0 \<le> s" by (simp add: s_def)
  have ts: "t - s = b" by (simp add: s_def t_def algebra_simps)
  with b have st: "s \<le> t" by linarith
  from a b have at: "a \<le> t"
    using mult_left_mono [of 1 b a] by (simp add: t_def)
  have target_far: "take (nat b) (drop (nat s) xs) = []" if "B \<le> s"
    using that lenB by simp
  show ?thesis
  proof (cases "t < B")
    case True
    with at a have "to_double (a - 1) = Fin (a - 1)" by (intro exact) simp_all
    moreover from True st s0 have "to_double s = Fin s" by (intro exact) simp_all
    moreover from True s0 st have "to_double t = Fin t" by (intro exact) simp_all
    ultimately have "slice xs (js_times (js_minus_one (Fin a)) (Fin b)) (js_times (Fin a) (Fin b))
        = slice xs (Fin s) (Fin t)"
      by (simp add: js_minus_one_def s_def t_def)
    also have "\<dots> = take (nat (t - s)) (drop (nat s) xs)" using s0 st by (rule slice_window)
    finally show ?thesis unfolding ts unfolding s_def .
  next
    case False
    then have "B \<le> t" by simp
    then have fin: "beyond (int (length xs)) (js_times (Fin a) (Fin b))"
      by (simp add: t_def far big)
    show ?thesis
    proof (cases "a - 1 < B")
      case True
      with a have m1: "js_minus_one (Fin a) = Fin (a - 1)"
        by (simp add: js_minus_one_def exact)
      show ?thesis
      proof (cases "s < B")
        case True
        with s0 have "js_times (js_minus_one (Fin a)) (Fin b) = Fin s"
          by (simp add: m1 s_def exact)
        with slice_end_beyond [OF s0 fin]
        have "slice xs (js_times (js_minus_one (Fin a)) (Fin b)) (js_times (Fin a) (Fin b))
            = drop (nat s) xs" by simp
        moreover from \<open>B \<le> t\<close> ts lenB have "int (length xs) - s \<le> b" by linarith
        with s0 have "length (drop (nat s) xs) \<le> nat b"
          unfolding length_drop by linarith
        then have "take (nat b) (drop (nat s) xs) = drop (nat s) xs"
          by (rule take_all)
        ultimately show ?thesis by (simp add: s_def)
      next
        case False
        then have sB: "B \<le> s" by simp
        then have "beyond (int (length xs)) (js_times (js_minus_one (Fin a)) (Fin b))"
          by (simp add: m1 s_def far big)
        from slice_start_beyond [OF this] target_far [OF sB] show ?thesis
          by (simp add: s_def)
      qed
    next
      case False
      then have aB: "B \<le> a - 1" by simp
      from b aB have sB: "B \<le> s"
        using mult_left_mono [of 1 b "a - 1"] a by (simp add: s_def)
      from big [OF aB] have "beyond B (js_times (js_minus_one (Fin a)) (Fin b))"
      proof (unfold beyond_def, elim disjE exE conjE)
        assume "to_double (a - 1) = PosInf"
        with b show "js_times (js_minus_one (Fin a)) (Fin b) = PosInf
            \<or> (\<exists>m. js_times (js_minus_one (Fin a)) (Fin b) = Fin m \<and> B \<le> m)"
          by (simp add: js_minus_one_def)
      next
        fix m
        assume m: "to_double (a - 1) = Fin m" "B \<le> m"
        have "0 < B" by (simp add: B_def)
        with m(2) have m0: "0 \<le> m" by linarith
        from b have b1: "1 \<le> b" by linarith
        from mult_left_mono [OF b1 m0] have "m \<le> m * b" by simp
        with m(2) have "B \<le> m * b" by linarith
        from big [OF this] m(1)
        show "js_times (js_minus_one (Fin a)) (Fin b) = PosInf
            \<or> (\<exists>m. js_times (js_minus_one (Fin a)) (Fin b) = Fin m \<and> B \<le> m)"
          by (simp add: js_minus_one_def beyond_def)
      qed
      then have "beyond (int (length xs)) (js_times (js_minus_one (Fin a)) (Fin b))"
        by (rule far)
      from slice_start_beyond [OF this] target_far [OF sB] show ?thesis
        by (simp add: s_def)
    qed
  qed
qed

lemma listProducts_matching:
  "listProducts s q =
     \<lparr> status = 200,
       payload = Page (json_number (query_number q ''page'' (Fin 1)))
         (json_number (query_number q ''limit'' (Fin 10))) (length (matching s q))
         (slice (matching s q)
            (js_times (js_minus_one (query_number q ''page'' (Fin 1)))
               (query_number q ''limit'' (Fin 10)))
            (js_times (query_number q ''page'' (Fin 1)) (query_number q ''limit'' (Fin 10)))) \<rparr>"
  by (simp add: listProducts_def matching_def Let_def split: option.splits)

lemma query_number_default:
  "q k = None \<or> (\<exists>v. q k = Some v \<and> (parseInt v = NaN \<or> parseInt v = Fin 0)) \<longrightarrow>
     query_number q k d = d"
  by (auto simp: query_number_def number_truthy_def)

lemma query_number_parsed:
  "\<forall>v. q k = Some v \<and> parseInt v \<noteq> NaN \<and> parseInt v \<noteq> Fin 0 \<longrightarrow>
     query_number q k d = parseInt v"
  by (auto simp: query_number_def number_truthy_def)

subsection \<open>The search and statistics handlers on their own\<close>

lemma startsWith_iff: "startsWith s t \<longleftrightarrow> (\<exists>v. s = t @ v)"
  by (induction s t rule: startsWith.induct) auto

text \<open>
  \<^verbatim>\<open>toLowerCase\<close> lowers the accented capitals of Latin-1 too: code unit 201, the letter E
  with an acute accent, becomes 233.
\<close>

lemma toLowerCase_accented: "map of_char (toLowerCase [CHR 0xC9]) = [233 :: nat]"
  by (simp add: toLowerCase_def)

lemma js_includes_iff: "js_includes s t \<longleftrightarrow> (\<exists>u v. s = u @ t @ v)"
proof (induction s)
  case Nil
  show ?case by simp
next
  case (Cons a s)
  show ?case
  proof
    assume "js_includes (a # s) t"
    then consider "startsWith (a # s) t" | "js_includes s t" by auto
    then show "\<exists>u v. a # s = u @ t @ v"
    proof cases
      case 1
      then obtain v where "a # s = t @ v" by (auto simp: startsWith_iff)
      then have "a # s = [] @ t @ v" by simp
      then show ?thesis by blast
    next
      case 2
      with Cons.IH obtain u v where "s = u @ t @ v" by blast
      then have "a # s = (a # u) @ t @ v" by simp
      then show ?thesis by blast
    qed
  next
    assume "\<exists>u v. a # s = u @ t @ v"
    then obtain u v where uv: "a # s = u @ t @ v" by blast
    show "js_includes (a # s) t"
    proof (cases u)
      case Nil
      with uv have "startsWith (a # s) t" by (auto simp: startsWith_iff)
      then show ?thesis by simp
    next
      case (Cons x u')
      with uv have "s = u' @ t @ v" by simp
      with Cons.IH have "js_includes s t" by blast
      then show ?thesis by simp
    qed
  qed
qed

lemma filter_by_name_well_typed:
  "list_all well_typed ps \<Longrightarrow>
     filter_by_name t ps =
       Inr (filter (\<lambda>p. \<exists>n. name p = JStr n \<and> js_includes (toLowerCase n) t) ps)"
proof (induction ps)
  case Nil
  show ?case by simp
next
  case (Cons p ps)
  from Cons.prems have "typeof (name p) = T_string" by (simp add: well_typed_def)
  then obtain n where n: "name p = JStr n" by (cases "name p") auto
  from Cons.prems Cons.IH n show ?case by simp
qed

lemma searchProducts_selects:
  assumes "list_all well_typed (products s)"
  shows "searchProducts s q =
    Inr (\<lparr> status = 200,
           payload = Many (filter (\<lambda>p. \<exists>n u v. name p = JStr n \<and>
               toLowerCase n = u @ toLowerCase (case q ''q'' of None \<Rightarrow> [] | Some t \<Rightarrow> t) @ v)
             (products s)) \<rparr>, s)"
proof -
  have t: "(case q ''q'' of None \<Rightarrow> [] | Some v \<Rightarrow> if v \<noteq> [] then toLowerCase v else [])
      = toLowerCase (case q ''q'' of None \<Rightarrow> [] | Some t \<Rightarrow> t)"
    by (simp add: toLowerCase_def split: option.splits)
  show ?thesis
    unfolding searchProducts_def Let_def t filter_by_name_well_typed [OF assms]
    by (simp add: js_includes_iff)
qed

lemma count_key_other:
  assumes "c \<noteq> k"
  shows "count_key acc k c = acc c"
proof (cases "acc k")
  case None
  with assms show ?thesis by (simp add: count_key_def)
next
  case (Some v)
  with assms show ?thesis by (cases v) (simp_all add: count_key_def)
qed

lemma count_key_count: "acc k = Some (Count n) \<Longrightarrow> count_key acc k k = Some (Count (n + 1))"
  by (simp add: count_key_def)

lemma count_key_new:
  "acc k = None \<Longrightarrow> k \<noteq> ''__proto__'' \<Longrightarrow> k \<notin> set object_prototype_names
    \<Longrightarrow> count_key acc k k = Some (Count 1)"
  by (simp add: count_key_def)

lemma count_fold:
  assumes "c \<noteq> ''__proto__''" and "c \<notin> set object_prototype_names"
    and "acc c = None \<or> (\<exists>n. acc c = Some (Count n))"
  shows "foldl count_key acc ks c =
     (case acc c of
        None \<Rightarrow> if c \<in> set ks then Some (Count (length (filter (\<lambda>k. k = c) ks))) else None
      | Some (Count n) \<Rightarrow> Some (Count (n + length (filter (\<lambda>k. k = c) ks)))
      | Some (Described t) \<Rightarrow> None)"
  using assms(3)
proof (induction ks arbitrary: acc)
  case Nil
  then show ?case by (auto split: option.splits)
next
  case (Cons k ks)
  show ?case
  proof (cases "k = c")
    case False
    then have same: "count_key acc k c = acc c" by (simp add: count_key_other)
    with Cons.prems have "count_key acc k c = None \<or> (\<exists>n. count_key acc k c = Some (Count n))"
      by simp
    from Cons.IH [of "count_key acc k", OF this] False show ?thesis
      unfolding foldl_Cons same by (auto split: option.splits stat.splits)
  next
    case True
    from Cons.prems show ?thesis
    proof
      assume none: "acc c = None"
      with assms(1,2) True have new: "count_key acc k c = Some (Count 1)"
        by (simp add: count_key_new)
      then have "count_key acc k c = None \<or> (\<exists>n. count_key acc k c = Some (Count n))" by simp
      from Cons.IH [of "count_key acc k", OF this] True none show ?thesis
        unfolding foldl_Cons new by simp
    next
      assume "\<exists>n. acc c = Some (Count n)"
      then obtain n where n: "acc c = Some (Count n)" ..
      with True have new: "count_key acc k c = Some (Count (n + 1))"
        by (simp add: count_key_count)
      then have "count_key acc k c = None \<or> (\<exists>n. count_key acc k c = Some (Count n))" by simp
      from Cons.IH [of "count_key acc k", OF this] True n show ?thesis
        unfolding foldl_Cons new by simp
    qed
  qed
qed

lemma category_key_mem:
  assumes "\<forall>p \<in> set ps. \<exists>c. category p = JStr c"
  shows "c \<in> set (map (\<lambda>p. case category p of JStr c \<Rightarrow> c | _ \<Rightarrow> []) ps)
    \<longleftrightarrow> JStr c \<in> category ` set ps"
  using assms by (induction ps) auto

lemma category_key_count:
  assumes "\<forall>p \<in> set ps. \<exists>c. category p = JStr c"
  shows "length (filter (\<lambda>k. k = c) (map (\<lambda>p. case category p of JStr c \<Rightarrow> c | _ \<Rightarrow> []) ps))
    = length (filter (\<lambda>p. category p = JStr c) ps)"
  using assms by (induction ps) auto

text \<open>
  On a collection whose categories are strings the statistics handler answers 200 with an
  object that holds, under every category that is not the name of an inherited property,
  the number of products in it, and nothing under a name that is no category.
\<close>

lemma productStats_counts:
  assumes "\<forall>p \<in> set (products s). \<exists>c. category p = JStr c"
  shows "\<exists>stats. productStats e s = Inr (\<lparr> status = 200, payload = Stats stats \<rparr>, s) \<and>
     (\<forall>c. c \<noteq> ''__proto__'' \<and> c \<notin> set object_prototype_names \<longrightarrow>
        stats c =
          (if JStr c \<in> category ` set (products s)
           then Some (Count (length (filter (\<lambda>p. category p = JStr c) (products s))))
           else None))"
proof -
  define ks where "ks = map (\<lambda>p. case category p of JStr c \<Rightarrow> c | _ \<Rightarrow> []) (products s)"
  have run: "productStats e s
      = Inr (\<lparr> status = 200, payload = Stats (foldl count_key Map.empty ks) \<rparr>, s)"
    unfolding productStats_def count_categories_strings [OF assms] ks_def by simp
  have mem: "c \<in> set ks \<longleftrightarrow> JStr c \<in> category ` set (products s)" for c
    unfolding ks_def by (rule category_key_mem [OF assms])
  have len: "length (filter (\<lambda>k. k = c) ks)
      = length (filter (\<lambda>p. category p = JStr c) (products s))" for c
    unfolding ks_def by (rule category_key_count [OF assms])
  have counts: "\<forall>c. c \<noteq> ''__proto__'' \<and> c \<notin> set object_prototype_names \<longrightarrow>
      foldl count_key Map.empty ks c =
        (if JStr c \<in> category ` set (products s)
         then Some (Count (length (filter (\<lambda>p. category p = JStr c) (products s))))
         else None)"
  proof (intro allI impI)
    fix c
    assume c: "c \<noteq> ''__proto__'' \<and> c \<notin> set object_prototype_names"
    from c have c1: "c \<noteq> ''__proto__''" ..
    from c have c2: "c \<notin> set object_prototype_names" ..
    have c3: "Map.empty c = None \<or> (\<exists>n. (Map.empty :: string \<rightharpoonup> stat) c = Some (Count n))"
      by simp
    have "foldl count_key Map.empty ks c
        = (if c \<in> set ks then Some (Count (length (filter (\<lambda>k. k = c) ks))) else None)"
      using count_fold [OF c1 c2 c3, of ks] by simp
    then show "foldl count_key Map.empty ks c =
        (if JStr c \<in> category ` set (products s)
         then Some (Count (length (filter (\<lambda>p. category p = JStr c) (products s))))
         else None)"
      unfolding mem len .
  qed
  show ?thesis
    apply (rule exI [of _ "foldl count_key Map.empty ks"])
    apply (rule conjI)
     apply (fact run)
    apply (fact counts)
    done
qed

text \<open>
  A category named as an inherited property is not counted: under \<^verbatim>\<open>constructor\<close> the
  object holds a text, and under \<^verbatim>\<open>__proto__\<close> it holds nothing.
\<close>

lemma count_key_constructor:
  "count_key Map.empty ''constructor'' ''constructor''
     = Some (Described ''function Object() { [native code] }1'')"
  by (simp add: count_key_def object_prototype_names_def native_function_def)

lemma count_key_proto: "count_key Map.empty ''__proto__'' = Map.empty"
  by (simp add: count_key_def)

section \<open>Authorization\<close>

text \<open>
  C4, as amended. A request to a path under \<^verbatim>\<open>/api\<close> (in any spelling of upper and lower
  case) whose \<^verbatim>\<open>x-api-key\<close> header is missing or differs from the configured secret, and whose
  body the body parser accepted, is answered with 401 and leaves the state as it was. This
  holds whatever the method, the rest of the path, the query and the body are: the error is
  raised by the authentication middleware, before a route is chosen, a body is validated or
  the collection is read. When the body parser rejects the body of such a request, the answer
  is the parser's error with its status, and the state is left as it was as well.
\<close>

theorem unauthorized_request_rejected:
  assumes "path req = x # rest" and "same_literal ''api'' x"
    and "x_api_key req = None \<or> x_api_key req \<noteq> API_KEY e"
  shows "app e s (Parsed req) = Inl (UnauthorizedError ''Unauthorized'')
    \<and> respond e s (Parsed req) = (\<lparr> status = 401, payload = Failure ''Unauthorized'' \<rparr>, s)
    \<and> handle e s req = (\<lparr> status = 401, payload = Failure ''Unauthorized'' \<rparr>, s)
    \<and> (\<forall>c m. respond e s (Failed c m req)
          = (\<lparr> status = (if c = 0 then 500 else c), payload = Failure m \<rparr>, s))"
proof -
  from assms(3) have "authMiddleware e req = Some (UnauthorizedError ''Unauthorized'')"
    by (auto simp: authMiddleware_def split: option.splits)
  with assms(1,2) have r: "routing e s req = Inl (UnauthorizedError ''Unauthorized'')"
    by (simp add: routing_def apiRouter_def)
  then have 1: "app e s (Parsed req) = Inl (UnauthorizedError ''Unauthorized'')"
    by (simp add: app_def)
  from r have 2: "handle e s req = (\<lparr> status = 401, payload = Failure ''Unauthorized'' \<rparr>, s)"
    by (simp add: handle_routing errorHandler_def)
  then have 3: "respond e s (Parsed req)
      = (\<lparr> status = 401, payload = Failure ''Unauthorized'' \<rparr>, s)"
    by (simp add: respond_Parsed)
  have 4: "\<forall>c m. respond e s (Failed c m req)
      = (\<lparr> status = (if c = 0 then 500 else c), payload = Failure m \<rparr>, s)"
    by (simp add: respond_Failed)
  from 1 3 2 4 show ?thesis by (intro conjI)
qed

theorem unauthorized_request_rejected_witness:
  "respond sample_env initial
     (Parsed \<lparr> req_method = DELETE, path = [''API'', ''products'', ''1''],
               x_api_key = Some ''guess'', query = Map.empty, body = Map.empty \<rparr>)
   = (\<lparr> status = 401, payload = Failure ''Unauthorized'' \<rparr>, initial)
   \<and> respond sample_env initial
     (Failed 413 ''request entity too large''
        \<lparr> req_method = DELETE, path = [''API'', ''products'', ''1''],
          x_api_key = Some ''guess'', query = Map.empty, body = Map.empty \<rparr>)
   = (\<lparr> status = 413, payload = Failure ''request entity too large'' \<rparr>, initial)"
proof -
  let ?r = "\<lparr> req_method = DELETE, path = [''API'', ''products'', ''1''],
               x_api_key = Some ''guess'', query = Map.empty, body = Map.empty \<rparr>"
  have p: "path ?r = ''API'' # [''products'', ''1'']" by simp
  have l: "same_literal ''api'' ''API''" by code_simp
  have k: "x_api_key ?r = None \<or> x_api_key ?r \<noteq> API_KEY sample_env"
    by (simp add: sample_env_def)
  note t = unauthorized_request_rejected [OF p l k, of initial]
  from t have 1: "respond sample_env initial (Parsed ?r)
      = (\<lparr> status = 401, payload = Failure ''Unauthorized'' \<rparr>, initial)"
    by (elim conjE)
  from t have 2: "\<forall>c m. respond sample_env initial (Failed c m ?r)
          = (\<lparr> status = (if c = 0 then 500 else c), payload = Failure m \<rparr>, initial)"
    by (elim conjE)
  from 1 2 [rule_format, of 413 "''request entity too large''"]
  show ?thesis by simp
qed

text \<open>
  The claim as first stated (401 for every request without a valid key) fails: a request
  without a key whose body is not well-formed JSON is answered by the body parser, which
  runs before the router, with its own status 400.
\<close>

theorem unauthorized_malformed_body_counterexample:
  "x_api_key \<lparr> req_method = POST, path = [''api'', ''products''], x_api_key = None,
               query = Map.empty, body = Map.empty \<rparr> = None
   \<and> respond sample_env initial
        (Failed 400 ''Unexpected end of JSON input''
           \<lparr> req_method = POST, path = [''api'', ''products''], x_api_key = None,
             query = Map.empty, body = Map.empty \<rparr>)
      = (\<lparr> status = 400, payload = Failure ''Unexpected end of JSON input'' \<rparr>, initial)"
  by (simp add: respond_def app_def errorHandler_def)

section \<open>Route order\<close>

text \<open>
  C3. The route \<^verbatim>\<open>GET /products/:id\<close> is registered before \<^verbatim>\<open>GET /products/search\<close> and
  \<^verbatim>\<open>GET /products/stats\<close>. An authorized \<^verbatim>\<open>GET\<close> of \<^verbatim>\<open>/api/products/search\<close> or
  \<^verbatim>\<open>/api/products/stats\<close> is therefore dispatched to the handler of the \<^verbatim>\<open>:id\<close> route with that
  word as the id; no request at all is dispatched to the search or the statistics handler;
  and, the generator never returning that word, in every state the process reaches from the
  seed collection the answer is 404 \<^verbatim>\<open>Product not found\<close>.
\<close>

theorem search_and_stats_shadowed:
  assumes "authorized e req" and "req_method req = GET"
    and "path req = [''api'', ''products'', w]" and "w = ''search'' \<or> w = ''stats''"
    and "\<forall>n. uuidv4 e n \<noteq> w"
  shows "dispatch routes (req_method req) (tl (path req)) = Some (GetProduct, [w])
    \<and> (\<forall>m p params. dispatch routes m p \<noteq> Some (SearchProducts, params)
                    \<and> dispatch routes m p \<noteq> Some (ProductStats, params))
    \<and> handle e (run e initial reqs) req =
        (\<lparr> status = 404, payload = Failure ''Product not found'' \<rparr>, run e initial reqs)"
proof -
  let ?s = "run e initial reqs"
  have d: "dispatch routes (req_method req) (tl (path req)) = Some (GetProduct, [w])"
    using assms(2,3) by (simp add: dispatch_get_param)
  have never: "\<forall>m p params. dispatch routes m p \<noteq> Some (SearchProducts, params)
                    \<and> dispatch routes m p \<noteq> Some (ProductStats, params)"
    using dispatch_never_search_stats by blast
  have "w \<notin> product_id ` set seed" using assms(4) by (auto simp: seed_def)
  moreover have "w \<notin> range (uuidv4 e)" using assms(5) by auto
  ultimately have "w \<notin> product_id ` set (products ?s)" using run_ids [of e reqs] by blast
  then have "find (\<lambda>p. product_id p = w) (products ?s) = None"
    by (auto simp: find_None_iff)
  then have g: "getProduct ?s w = Inl (NotFoundError ''Product not found'')"
    by (simp add: getProduct_def)
  have a: "authMiddleware e req = None" using assms(1) by (simp add: authMiddleware_None)
  have "routing e ?s req = Inl (NotFoundError ''Product not found'')"
    using a d g assms(3) by (simp add: routing_def apiRouter_def run_endpoint_def param_id_def)
  then have "handle e ?s req = (\<lparr> status = 404, payload = Failure ''Product not found'' \<rparr>, ?s)"
    by (simp add: handle_routing errorHandler_def)
  with d never show ?thesis by blast
qed

theorem search_and_stats_shadowed_witness:
  "handle sample_env
     (run sample_env initial
        [Parsed (sample_request DELETE [''api'', ''products'', ''2''] Map.empty Map.empty)])
     (sample_request GET [''api'', ''products'', ''search''] [''q'' \<mapsto> ''phone''] Map.empty)
   = (\<lparr> status = 404, payload = Failure ''Product not found'' \<rparr>,
      run sample_env initial
        [Parsed (sample_request DELETE [''api'', ''products'', ''2''] Map.empty Map.empty)])"
proof -
  have "\<forall>n. uuidv4 sample_env n \<noteq> ''search''" by (simp add: sample_env_def)
  from search_and_stats_shadowed [OF authorized_sample _ _ _ this,
      of GET "[''api'', ''products'', ''search'']" "[''q'' \<mapsto> ''phone'']" Map.empty
        "[Parsed (sample_request DELETE [''api'', ''products'', ''2''] Map.empty Map.empty)]"]
  show ?thesis by (simp add: sample_request_def)
qed

section \<open>The invariant of the collection\<close>

text \<open>
  C10. The generator returning a new string at every call and never the id of a seed record,
  after every sequence of requests from the seed collection (creations, merge-updates and
  deletions among them) the ids in the collection are pairwise different and every stored
  product has its five fields set to values of the declared types: \<open>name\<close>,
  \<open>description\<close> and \<open>category\<close> strings, \<open>price\<close> a number, \<open>inStock\<close> a boolean.
  In particular no field is \<^verbatim>\<open>null\<close> or \<^verbatim>\<open>undefined\<close>.
\<close>

theorem collection_invariant:
  assumes "fresh_ids e"
  shows "distinct (map product_id (products (run e initial reqs)))
    \<and> (\<forall>p \<in> set (products (run e initial reqs)).
          well_typed p \<and>
          name p \<noteq> JNull \<and> name p \<noteq> JUndefined \<and> description p \<noteq> JNull \<and>
          description p \<noteq> JUndefined \<and> price p \<noteq> JNull \<and> price p \<noteq> JUndefined \<and>
          category p \<noteq> JNull \<and> category p \<noteq> JUndefined \<and> inStock p \<noteq> JNull \<and>
          inStock p \<noteq> JUndefined)"
proof -
  from run_invariant [OF assms, of reqs]
  have d: "distinct (map product_id (products (run e initial reqs)))"
    and w: "\<forall>p \<in> set (products (run e initial reqs)). well_typed p"
    by (simp_all add: invariant_def list_all_iff)
  from w well_typed_set have "\<forall>p \<in> set (products (run e initial reqs)).
          well_typed p \<and>
          name p \<noteq> JNull \<and> name p \<noteq> JUndefined \<and> description p \<noteq> JNull \<and>
          description p \<noteq> JUndefined \<and> price p \<noteq> JNull \<and> price p \<noteq> JUndefined \<and>
          category p \<noteq> JNull \<and> category p \<noteq> JUndefined \<and> inStock p \<noteq> JNull \<and>
          inStock p \<noteq> JUndefined"
    by blast
  with d show ?thesis by blast
qed

theorem collection_invariant_witness:
  "fresh_ids sample_env
   \<and> map product_id (products (run sample_env initial sample_ops)) = [''1'', ''3'', ''uuid-'']
   \<and> distinct (map product_id (products (run sample_env initial sample_ops)))
   \<and> list_all well_typed (products (run sample_env initial sample_ops))"
proof -
  have ids: "map product_id (products (run sample_env initial sample_ops)) = [''1'', ''3'', ''uuid-'']"
    by (simp add: sample_ops_def sample_request_def sample_env_def initial_def seed_def
        respond_Parsed respond_Failed handle_routing routing_def apiRouter_def authMiddleware_def routes_def run_endpoint_def
        param_id_def createProduct_def updateProduct_def deleteProduct_def
        validateProductCreation_def validateProductUpdate_def body_prop_def merge_def
        js_or_def splice1_def Let_def)
  from collection_invariant [OF fresh_ids_sample, of sample_ops] ids fresh_ids_sample
  show ?thesis by (simp add: list_all_iff)
qed

section \<open>Deleting a product\<close>

text \<open>
  C9. An authorized \<^verbatim>\<open>DELETE /api/products/:id\<close>, on a collection whose ids are pairwise
  different (as they are in every state the process reaches). If a product has the id, the
  answer is 204 with no body and the collection afterwards is the old one without that
  product; a \<^verbatim>\<open>GET\<close> of the id then returns 404, and so does a second \<^verbatim>\<open>DELETE\<close>, both leaving
  the collection as it is. If no product has the id, the answer is 404 and the state is
  unchanged.
\<close>

theorem delete_product:
  assumes a: "authorized e req" and m: "req_method req = DELETE"
    and p: "path req = [''api'', ''products'', i]"
    and d: "distinct (map product_id (products s))"
  shows "(i \<in> product_id ` set (products s) \<longrightarrow>
           (\<exists>s'. handle e s req = (\<lparr> status = 204, payload = Empty \<rparr>, s')
              \<and> products s' = filter (\<lambda>p. product_id p \<noteq> i) (products s)
              \<and> length (products s') + 1 = length (products s)
              \<and> i \<notin> product_id ` set (products s')
              \<and> handle e s' (req \<lparr> req_method := GET \<rparr>)
                  = (\<lparr> status = 404, payload = Failure ''Product not found'' \<rparr>, s')
              \<and> handle e s' req
                  = (\<lparr> status = 404, payload = Failure ''Product not found'' \<rparr>, s')))
    \<and> (i \<notin> product_id ` set (products s) \<longrightarrow>
           handle e s req = (\<lparr> status = 404, payload = Failure ''Product not found'' \<rparr>, s))"
proof (intro conjI impI)
  assume "i \<notin> product_id ` set (products s)"
  then show "handle e s req = (\<lparr> status = 404, payload = Failure ''Product not found'' \<rparr>, s)"
    by (simp add: handle_Inl routing_delete [OF a m p] deleteProduct_absent errorHandler_NotFound)
next
  assume i: "i \<in> product_id ` set (products s)"
  define s' where "s' = s \<lparr> products := filter (\<lambda>p. product_id p \<noteq> i) (products s) \<rparr>"
  have h: "handle e s req = (\<lparr> status = 204, payload = Empty \<rparr>, s')"
    by (simp add: handle_Inr routing_delete [OF a m p] deleteProduct_present [OF d i] s'_def)
  have ps: "products s' = filter (\<lambda>p. product_id p \<noteq> i) (products s)"
    by (simp add: s'_def)
  have gone: "i \<notin> product_id ` set (products s')"
    by (auto simp: ps)
  have len: "length (products s') + 1 = length (products s)"
    using deleteProduct_length [OF d i] by (simp add: ps)
  have a': "authorized e (req \<lparr> req_method := GET \<rparr>)" using a by (simp add: authorized_def)
  have g: "handle e s' (req \<lparr> req_method := GET \<rparr>)
      = (\<lparr> status = 404, payload = Failure ''Product not found'' \<rparr>, s')"
    using p by (simp add: handle_Inl routing_get [OF a'] getProduct_absent [OF gone] errorHandler_NotFound)
  have again: "handle e s' req = (\<lparr> status = 404, payload = Failure ''Product not found'' \<rparr>, s')"
    by (simp add: handle_Inl routing_delete [OF a m p] deleteProduct_absent [OF gone] errorHandler_NotFound)
  from h ps len gone g again
  show "\<exists>s'. handle e s req = (\<lparr> status = 204, payload = Empty \<rparr>, s')
              \<and> products s' = filter (\<lambda>p. product_id p \<noteq> i) (products s)
              \<and> length (products s') + 1 = length (products s)
              \<and> i \<notin> product_id ` set (products s')
              \<and> handle e s' (req \<lparr> req_method := GET \<rparr>)
                  = (\<lparr> status = 404, payload = Failure ''Product not found'' \<rparr>, s')
              \<and> handle e s' req
                  = (\<lparr> status = 404, payload = Failure ''Product not found'' \<rparr>, s')"
    by blast
qed


theorem delete_product_witness:
  "distinct (map product_id (products initial))
   \<and> (\<exists>s'. handle sample_env initial
               (sample_request DELETE [''api'', ''products'', ''2''] Map.empty Map.empty)
             = (\<lparr> status = 204, payload = Empty \<rparr>, s')
          \<and> map product_id (products s') = [''1'', ''3'']
          \<and> handle sample_env s'
               (sample_request GET [''api'', ''products'', ''2''] Map.empty Map.empty)
             = (\<lparr> status = 404, payload = Failure ''Product not found'' \<rparr>, s')
          \<and> handle sample_env s'
               (sample_request DELETE [''api'', ''products'', ''2''] Map.empty Map.empty)
             = (\<lparr> status = 404, payload = Failure ''Product not found'' \<rparr>, s'))"
proof -
  have d: "distinct (map product_id (products initial))"
    by (simp add: initial_def seed_def)
  have i: "''2'' \<in> product_id ` set (products initial)"
    by (simp add: initial_def seed_def)
  have g: "(sample_request DELETE [''api'', ''products'', ''2''] Map.empty Map.empty)
             \<lparr> req_method := GET \<rparr>
           = sample_request GET [''api'', ''products'', ''2''] Map.empty Map.empty"
    by (simp add: sample_request_def)
  have m: "req_method (sample_request DELETE [''api'', ''products'', ''2''] Map.empty Map.empty)
      = DELETE"
    and p: "path (sample_request DELETE [''api'', ''products'', ''2''] Map.empty Map.empty)
      = [''api'', ''products'', ''2'']"
    by (simp_all add: sample_request_def)
  from delete_product [OF authorized_sample m p d, THEN conjunct1, rule_format, OF i]
  obtain s' where
    h1: "handle sample_env initial
        (sample_request DELETE [''api'', ''products'', ''2''] Map.empty Map.empty)
      = (\<lparr> status = 204, payload = Empty \<rparr>, s')"
    and h2: "products s' = filter (\<lambda>p. product_id p \<noteq> ''2'') (products initial)"
    and h3: "handle sample_env s'
        ((sample_request DELETE [''api'', ''products'', ''2''] Map.empty Map.empty)
           \<lparr> req_method := GET \<rparr>)
      = (\<lparr> status = 404, payload = Failure ''Product not found'' \<rparr>, s')"
    and h4: "handle sample_env s'
        (sample_request DELETE [''api'', ''products'', ''2''] Map.empty Map.empty)
      = (\<lparr> status = 404, payload = Failure ''Product not found'' \<rparr>, s')"
    by (elim exE conjE)
  from h2 have ids: "map product_id (products s') = [''1'', ''3'']"
    by (simp add: initial_def seed_def)
  note h3' = h3 [unfolded g]
  show ?thesis
    apply (rule conjI [OF d])
    apply (rule exI [of _ s'])
    apply (intro conjI)
    apply (fact h1 ids h3' h4)+
    done
qed

section \<open>Updating a product\<close>

text \<open>
  C2, as amended. An authorized \<^verbatim>\<open>PUT /api/products/:id\<close> on an existing product with a payload
  that passes the update validation returns 200 with the merged product, stored in the place
  of the old one. In the merged product a \<open>name\<close>, \<open>description\<close> or \<open>category\<close> given as
  a non-empty string, a \<open>price\<close> given as a number other than zero and an \<open>inStock\<close> given
  as a boolean replace the stored value; a field absent from the payload keeps its value; the
  id stays. With the payload \<^verbatim>\<open>{price: 999}\<close> the merged product is the old one with the price
  set to 999.
\<close>

theorem update_product:
  assumes a: "authorized e req" and m: "req_method req = PUT"
    and p: "path req = [''api'', ''products'', i]"
    and v: "validateProductUpdate (body req) = None"
    and i: "i \<in> product_id ` set (products s)"
  shows "\<exists>k old new. k < length (products s) \<and> old = products s ! k \<and> product_id old = i
    \<and> handle e s req =
         (\<lparr> status = 200, payload = One new \<rparr>, s \<lparr> products := (products s)[k := new] \<rparr>)
    \<and> product_id new = i
    \<and> (\<forall>x. x \<noteq> [] \<and> body req ''name'' = Some (JStr x) \<longrightarrow> name new = JStr x)
    \<and> (body req ''name'' = None \<longrightarrow> name new = name old)
    \<and> (\<forall>x. x \<noteq> [] \<and> body req ''description'' = Some (JStr x) \<longrightarrow> description new = JStr x)
    \<and> (body req ''description'' = None \<longrightarrow> description new = description old)
    \<and> (\<forall>n. n \<noteq> 0 \<and> body req ''price'' = Some (JNum n) \<longrightarrow> price new = JNum n)
    \<and> (body req ''price'' = None \<longrightarrow> price new = price old)
    \<and> (\<forall>x. x \<noteq> [] \<and> body req ''category'' = Some (JStr x) \<longrightarrow> category new = JStr x)
    \<and> (body req ''category'' = None \<longrightarrow> category new = category old)
    \<and> (\<forall>x. body req ''inStock'' = Some (JBool x) \<longrightarrow> inStock new = JBool x)
    \<and> (body req ''inStock'' = None \<longrightarrow> inStock new = inStock old)
    \<and> (body req = [''price'' \<mapsto> JNum 999] \<longrightarrow> new = old \<lparr> price := JNum 999 \<rparr>)"
proof -
  from i obtain k where k: "findIndex (\<lambda>p. product_id p = i) (products s) = Some k"
    "k < length (products s)" "product_id (products s ! k) = i"
    by (rule findIndex_present)
  define old where "old = products s ! k"
  define new where "new = merge old (body req)"
  have h: "handle e s req =
      (\<lparr> status = 200, payload = One new \<rparr>, s \<lparr> products := (products s)[k := new] \<rparr>)"
    unfolding new_def old_def by (rule handle_put [OF a m p v k(1)])
  have id: "product_id new = i" using k(3) by (simp add: new_def old_def product_id_merge)
  have old: "old = products s ! k" by (rule old_def)
  have ido: "product_id old = i" using k(3) by (simp add: old_def)
  have n1: "\<forall>x. x \<noteq> [] \<and> body req ''name'' = Some (JStr x) \<longrightarrow> name new = JStr x"
    and n2: "body req ''name'' = None \<longrightarrow> name new = name old"
    and d1: "\<forall>x. x \<noteq> [] \<and> body req ''description'' = Some (JStr x) \<longrightarrow> description new = JStr x"
    and d2: "body req ''description'' = None \<longrightarrow> description new = description old"
    and p1: "\<forall>n. n \<noteq> 0 \<and> body req ''price'' = Some (JNum n) \<longrightarrow> price new = JNum n"
    and p2: "body req ''price'' = None \<longrightarrow> price new = price old"
    and c1: "\<forall>x. x \<noteq> [] \<and> body req ''category'' = Some (JStr x) \<longrightarrow> category new = JStr x"
    and c2: "body req ''category'' = None \<longrightarrow> category new = category old"
    by (simp_all add: new_def merge_def js_or_def body_prop_def)
  have s1: "\<forall>x. body req ''inStock'' = Some (JBool x) \<longrightarrow> inStock new = JBool x"
    and s2: "body req ''inStock'' = None \<longrightarrow> inStock new = inStock old"
    by (simp_all add: new_def merge_def body_prop_def)
  have only: "body req = [''price'' \<mapsto> JNum 999] \<longrightarrow> new = old \<lparr> price := JNum 999 \<rparr>"
    by (simp add: new_def merge_price_only)
  show ?thesis
    apply (rule exI [of _ k], rule exI [of _ old], rule exI [of _ new])
    apply (intro conjI)
    apply (fact k(2) old ido h id n1 n2 d1 d2 p1 p2 c1 c2 s1 s2 only)+
    done
qed

theorem update_product_witness:
  "\<exists>k old new. k < length (products initial) \<and> old = products initial ! k
     \<and> product_id old = ''1''
     \<and> handle sample_env initial
          (sample_request PUT [''api'', ''products'', ''1''] Map.empty [''price'' \<mapsto> JNum 999])
        = (\<lparr> status = 200, payload = One new \<rparr>,
           initial \<lparr> products := (products initial)[k := new] \<rparr>)
     \<and> new = old \<lparr> price := JNum 999 \<rparr>"
proof -
  let ?r = "sample_request PUT [''api'', ''products'', ''1''] Map.empty [''price'' \<mapsto> JNum 999]"
  have m: "req_method ?r = PUT" and p: "path ?r = [''api'', ''products'', ''1'']"
    and b: "body ?r = [''price'' \<mapsto> JNum 999]"
    by (simp_all add: sample_request_def)
  have v: "validateProductUpdate (body ?r) = None"
    unfolding b by (rule validateProductUpdate_price_only)
  have i: "''1'' \<in> product_id ` set (products initial)"
    by (simp add: initial_def seed_def)
  from update_product [OF authorized_sample m p v i]
  obtain k old new where
    k: "k < length (products initial)" and old: "old = products initial ! k"
    and ido: "product_id old = ''1''"
    and h: "handle sample_env initial ?r
        = (\<lparr> status = 200, payload = One new \<rparr>,
           initial \<lparr> products := (products initial)[k := new] \<rparr>)"
    and only: "body ?r = [''price'' \<mapsto> JNum 999] \<longrightarrow> new = old \<lparr> price := JNum 999 \<rparr>"
    by (elim exE conjE)
  from only b have new: "new = old \<lparr> price := JNum 999 \<rparr>" by simp
  show ?thesis
    apply (rule exI [of _ k], rule exI [of _ old], rule exI [of _ new])
    apply (intro conjI)
    apply (fact k old ido h new)+
    done
qed

text \<open>
  The claim as first stated (every provided field of the correct type replaces the stored
  value) fails: the payload \<^verbatim>\<open>{name: ""}\<close> provides a string for \<open>name\<close>, and the product
  keeps its name.
\<close>

theorem update_empty_name_counterexample:
  "typeof (JStr '''') = T_string
   \<and> handle sample_env initial
        (sample_request PUT [''api'', ''products'', ''3''] Map.empty [''name'' \<mapsto> JStr ''''])
      = (\<lparr> status = 200,
           payload = One \<lparr> product_id = ''3'', name = JStr ''Coffee Maker'',
                          description = JStr ''Programmable coffee maker with timer'',
                          price = JNum 50, category = JStr ''kitchen'', inStock = JBool False \<rparr> \<rparr>,
         initial)"
  by (simp add: sample_request_def sample_env_def initial_def seed_def
      handle_routing routing_def apiRouter_def authMiddleware_def routes_def run_endpoint_def
      param_id_def updateProduct_def validateProductUpdate_def body_prop_def merge_def
      js_or_def Let_def)

section \<open>Creating a product\<close>

text \<open>
  C1, as amended. An authorized \<^verbatim>\<open>POST /api/products\<close>. If the body has all five fields with
  the declared types, with \<open>name\<close>, \<open>description\<close> and \<open>category\<close> non-empty and \<open>price\<close>
  not zero, the answer is 201 with a record that holds the five values of the body; the
  record is appended to the collection; and, the generator returning fresh strings, its id is
  none of the ids issued before (so, in a state reached from the seed collection, none of
  the ids in the collection). If the body lacks one of the five fields or gives one a value
  of another type, the answer is 400 and the state is unchanged.
\<close>

theorem create_product:
  assumes a: "authorized e req" and m: "req_method req = POST"
    and p: "path req = [''api'', ''products'']"
  shows "(declared_types (body req) \<and> body req ''name'' \<noteq> Some (JStr [])
          \<and> body req ''description'' \<noteq> Some (JStr []) \<and> body req ''price'' \<noteq> Some (JNum 0)
          \<and> body req ''category'' \<noteq> Some (JStr []) \<longrightarrow>
            (\<exists>new. handle e s req =
                 (\<lparr> status = 201, payload = One new \<rparr>,
                  s \<lparr> products := products s @ [new], uuid_calls := Suc (uuid_calls s) \<rparr>)
               \<and> body req ''name'' = Some (name new)
               \<and> body req ''description'' = Some (description new)
               \<and> body req ''price'' = Some (price new)
               \<and> body req ''category'' = Some (category new)
               \<and> body req ''inStock'' = Some (inStock new)
               \<and> (fresh_ids e \<longrightarrow> product_id new \<notin> issued e s)
               \<and> (fresh_ids e \<and> (\<exists>reqs. s = run e initial reqs) \<longrightarrow>
                    product_id new \<notin> product_id ` set (products s))))
    \<and> (\<not> declared_types (body req) \<longrightarrow>
          (\<exists>msg. handle e s req = (\<lparr> status = 400, payload = Failure msg \<rparr>, s)))"
proof (intro conjI impI)
  assume n: "\<not> declared_types (body req)"
  with valid_declared_types have "validateProductCreation (body req) \<noteq> None" by blast
  with validateProductCreation_cases [of "body req"]
  obtain msg where "validateProductCreation (body req) = Some (ValidationError msg)" by blast
  from handle_post_invalid [OF a m p this]
  show "\<exists>msg. handle e s req = (\<lparr> status = 400, payload = Failure msg \<rparr>, s)" by blast
next
  assume ok: "declared_types (body req) \<and> body req ''name'' \<noteq> Some (JStr [])
          \<and> body req ''description'' \<noteq> Some (JStr []) \<and> body req ''price'' \<noteq> Some (JNum 0)
          \<and> body req ''category'' \<noteq> Some (JStr [])"
  then have v: "validateProductCreation (body req) = None"
    by (simp add: declared_types_valid)
  define new where "new = \<lparr> product_id = uuidv4 e (uuid_calls s),
                  name = body_prop (body req) ''name'',
                  description = body_prop (body req) ''description'',
                  price = body_prop (body req) ''price'',
                  category = body_prop (body req) ''category'',
                  inStock = body_prop (body req) ''inStock'' \<rparr>"
  have h: "handle e s req =
      (\<lparr> status = 201, payload = One new \<rparr>,
       s \<lparr> products := products s @ [new], uuid_calls := Suc (uuid_calls s) \<rparr>)"
    unfolding new_def by (rule handle_post_valid [OF a m p v])
  from ok have f1: "body req ''name'' = Some (name new)"
    and f2: "body req ''description'' = Some (description new)"
    and f3: "body req ''price'' = Some (price new)"
    and f4: "body req ''category'' = Some (category new)"
    and f5: "body req ''inStock'' = Some (inStock new)"
    by (auto simp: new_def declared_types_def dest: body_prop_Some)
  have u1: "fresh_ids e \<longrightarrow> product_id new \<notin> issued e s"
    by (simp add: new_def fresh_not_issued)
  have u2: "fresh_ids e \<and> (\<exists>reqs. s = run e initial reqs) \<longrightarrow>
      product_id new \<notin> product_id ` set (products s)"
  proof
    assume r: "fresh_ids e \<and> (\<exists>reqs. s = run e initial reqs)"
    then obtain reqs where "s = run e initial reqs" by blast
    with r run_invariant [of e reqs] have "product_id ` set (products s) \<subseteq> issued e s"
      by (simp add: invariant_def)
    with u1 r show "product_id new \<notin> product_id ` set (products s)" by blast
  qed
  show "\<exists>new. handle e s req =
                 (\<lparr> status = 201, payload = One new \<rparr>,
                  s \<lparr> products := products s @ [new], uuid_calls := Suc (uuid_calls s) \<rparr>)
               \<and> body req ''name'' = Some (name new)
               \<and> body req ''description'' = Some (description new)
               \<and> body req ''price'' = Some (price new)
               \<and> body req ''category'' = Some (category new)
               \<and> body req ''inStock'' = Some (inStock new)
               \<and> (fresh_ids e \<longrightarrow> product_id new \<notin> issued e s)
               \<and> (fresh_ids e \<and> (\<exists>reqs. s = run e initial reqs) \<longrightarrow>
                    product_id new \<notin> product_id ` set (products s))"
    apply (rule exI [of _ new])
    apply (intro conjI)
    apply (fact h f1 f2 f3 f4 f5 u1 u2)+
    done
qed

theorem create_product_witness:
  "(\<exists>new. handle sample_env initial
       (sample_request POST [''api'', ''products''] Map.empty
          [''name'' \<mapsto> JStr ''New Product'', ''description'' \<mapsto> JStr ''Description'',
           ''price'' \<mapsto> JNum 100, ''category'' \<mapsto> JStr ''electronics'',
           ''inStock'' \<mapsto> JBool True])
     = (\<lparr> status = 201, payload = One new \<rparr>,
        initial \<lparr> products := products initial @ [new],
                  uuid_calls := Suc (uuid_calls initial) \<rparr>)
     \<and> product_id new \<notin> issued sample_env initial)
   \<and> (\<exists>msg. handle sample_env initial
         (sample_request POST [''api'', ''products''] Map.empty
            [''name'' \<mapsto> JStr ''New Product'', ''price'' \<mapsto> JStr ''100''])
        = (\<lparr> status = 400, payload = Failure msg \<rparr>, initial))"
proof -
  let ?b = "[''name'' \<mapsto> JStr ''New Product'', ''description'' \<mapsto> JStr ''Description'',
           ''price'' \<mapsto> JNum 100, ''category'' \<mapsto> JStr ''electronics'',
           ''inStock'' \<mapsto> JBool True]"
  let ?r = "sample_request POST [''api'', ''products''] Map.empty ?b"
  let ?c = "[''name'' \<mapsto> JStr ''New Product'', ''price'' \<mapsto> JStr ''100'']"
  let ?q = "sample_request POST [''api'', ''products''] Map.empty ?c"
  have m: "req_method ?r = POST" and p: "path ?r = [''api'', ''products'']"
    and m': "req_method ?q = POST" and p': "path ?q = [''api'', ''products'']"
    by (simp_all add: sample_request_def)
  have ok: "declared_types (body ?r) \<and> body ?r ''name'' \<noteq> Some (JStr [])
          \<and> body ?r ''description'' \<noteq> Some (JStr []) \<and> body ?r ''price'' \<noteq> Some (JNum 0)
          \<and> body ?r ''category'' \<noteq> Some (JStr [])"
    by (simp add: sample_request_def declared_types_def has_type_def)
  have bad: "\<not> declared_types (body ?q)"
    by (simp add: sample_request_def declared_types_def has_type_def)
  from create_product [OF authorized_sample m p, where s = initial, THEN conjunct1, rule_format, OF ok]
  obtain new where
    h: "handle sample_env initial ?r
        = (\<lparr> status = 201, payload = One new \<rparr>,
           initial \<lparr> products := products initial @ [new],
                     uuid_calls := Suc (uuid_calls initial) \<rparr>)"
    and u: "fresh_ids sample_env \<longrightarrow> product_id new \<notin> issued sample_env initial"
    by (elim exE conjE)
  from u fresh_ids_sample have u': "product_id new \<notin> issued sample_env initial" by simp
  from h u' have first: "\<exists>new. handle sample_env initial ?r
        = (\<lparr> status = 201, payload = One new \<rparr>,
           initial \<lparr> products := products initial @ [new],
                     uuid_calls := Suc (uuid_calls initial) \<rparr>)
        \<and> product_id new \<notin> issued sample_env initial"
    by (intro exI [of _ new] conjI)
  from create_product [OF authorized_sample m' p', where s = initial, THEN conjunct2, rule_format, OF bad]
  have second: "\<exists>msg. handle sample_env initial ?q
        = (\<lparr> status = 400, payload = Failure msg \<rparr>, initial)" .
  from first second show ?thesis by (rule conjI)
qed

text \<open>
  The claim as first stated (every body with the five fields of the declared types is
  accepted) fails: with an empty string for \<open>name\<close> the five fields are there with their
  types and the answer is 400.
\<close>

theorem create_empty_name_counterexample:
  "declared_types
     [''name'' \<mapsto> JStr '''', ''description'' \<mapsto> JStr ''Description'',
      ''price'' \<mapsto> JNum 100, ''category'' \<mapsto> JStr ''electronics'', ''inStock'' \<mapsto> JBool True]
   \<and> handle sample_env initial
        (sample_request POST [''api'', ''products''] Map.empty
           [''name'' \<mapsto> JStr '''', ''description'' \<mapsto> JStr ''Description'',
            ''price'' \<mapsto> JNum 100, ''category'' \<mapsto> JStr ''electronics'',
            ''inStock'' \<mapsto> JBool True])
      = (\<lparr> status = 400, payload = Failure ''All fields are required'' \<rparr>, initial)"
  by (simp add: declared_types_def has_type_def sample_request_def sample_env_def
      handle_routing routing_def apiRouter_def authMiddleware_def routes_def run_endpoint_def
      createProduct_def validateProductCreation_def body_prop_def errorHandler_def Let_def)

section \<open>Falsy values\<close>

text \<open>
  C6, as amended. For an authorized request: a creation payload in which \<open>name\<close>,
  \<open>description\<close>, \<open>price\<close> or \<open>category\<close> is falsy (an empty string and the number 0
  among them) is rejected with 400 \<^verbatim>\<open>All fields are required\<close>, and the validator gives the
  same result with that falsy value as with the field removed. An update payload that passes
  validation, on an existing product, leaves \<open>name\<close>, \<open>description\<close>, \<open>price\<close> or
  \<open>category\<close> as stored when the payload's value for it is falsy, while a boolean given
  for \<open>inStock\<close> (\<open>False\<close> too) is written.
\<close>

theorem falsy_values_read_as_absent:
  assumes a: "authorized e req"
  shows "(req_method req = POST \<and> path req = [''api'', ''products'']
           \<and> (\<not> truthy (body_prop (body req) ''name'')
                \<or> \<not> truthy (body_prop (body req) ''description'')
                \<or> \<not> truthy (body_prop (body req) ''price'')
                \<or> \<not> truthy (body_prop (body req) ''category'')) \<longrightarrow>
           handle e s req = (\<lparr> status = 400, payload = Failure ''All fields are required'' \<rparr>, s))
    \<and> (\<forall>k v. k \<in> {''name'', ''description'', ''price'', ''category''} \<and> \<not> truthy v \<longrightarrow>
           validateProductCreation (b(k \<mapsto> v)) = validateProductCreation (b(k := None)))
    \<and> (req_method req = PUT \<and> path req = [''api'', ''products'', i]
           \<and> i \<in> product_id ` set (products s) \<and> validateProductUpdate (body req) = None \<longrightarrow>
           (\<exists>k old new. k < length (products s) \<and> old = products s ! k \<and> product_id old = i
              \<and> handle e s req =
                   (\<lparr> status = 200, payload = One new \<rparr>,
                    s \<lparr> products := (products s)[k := new] \<rparr>)
              \<and> (\<not> truthy (body_prop (body req) ''name'') \<longrightarrow> name new = name old)
              \<and> (\<not> truthy (body_prop (body req) ''description'') \<longrightarrow>
                    description new = description old)
              \<and> (\<not> truthy (body_prop (body req) ''price'') \<longrightarrow> price new = price old)
              \<and> (\<not> truthy (body_prop (body req) ''category'') \<longrightarrow> category new = category old)
              \<and> (\<forall>x. body req ''inStock'' = Some (JBool x) \<longrightarrow> inStock new = JBool x)))"
proof (intro conjI impI allI)
  assume c: "req_method req = POST \<and> path req = [''api'', ''products'']
           \<and> (\<not> truthy (body_prop (body req) ''name'')
                \<or> \<not> truthy (body_prop (body req) ''description'')
                \<or> \<not> truthy (body_prop (body req) ''price'')
                \<or> \<not> truthy (body_prop (body req) ''category''))"
  then have "validateProductCreation (body req) = Some (ValidationError ''All fields are required'')"
    by (intro falsy_rejected) simp
  with c show "handle e s req =
      (\<lparr> status = 400, payload = Failure ''All fields are required'' \<rparr>, s)"
    by (intro handle_post_invalid [OF a]) simp_all
next
  fix k v
  assume "k \<in> {''name'', ''description'', ''price'', ''category''} \<and> \<not> truthy v"
  then show "validateProductCreation (b(k \<mapsto> v)) = validateProductCreation (b(k := None))"
    using falsy_as_absent [of k v b] by simp
next
  assume u: "req_method req = PUT \<and> path req = [''api'', ''products'', i]
           \<and> i \<in> product_id ` set (products s) \<and> validateProductUpdate (body req) = None"
  then have m: "req_method req = PUT" and p: "path req = [''api'', ''products'', i]"
    and i: "i \<in> product_id ` set (products s)" and v: "validateProductUpdate (body req) = None"
    by simp_all
  from i obtain k where k: "findIndex (\<lambda>p. product_id p = i) (products s) = Some k"
    "k < length (products s)" "product_id (products s ! k) = i"
    by (rule findIndex_present)
  define old where "old = products s ! k"
  define new where "new = merge old (body req)"
  have h: "handle e s req =
      (\<lparr> status = 200, payload = One new \<rparr>, s \<lparr> products := (products s)[k := new] \<rparr>)"
    unfolding new_def old_def by (rule handle_put [OF a m p v k(1)])
  have old: "old = products s ! k" by (rule old_def)
  have ido: "product_id old = i" using k(3) by (simp add: old_def)
  note f = merge_falsy [of "body req" old, folded new_def]
  show "\<exists>k old new. k < length (products s) \<and> old = products s ! k \<and> product_id old = i
              \<and> handle e s req =
                   (\<lparr> status = 200, payload = One new \<rparr>,
                    s \<lparr> products := (products s)[k := new] \<rparr>)
              \<and> (\<not> truthy (body_prop (body req) ''name'') \<longrightarrow> name new = name old)
              \<and> (\<not> truthy (body_prop (body req) ''description'') \<longrightarrow>
                    description new = description old)
              \<and> (\<not> truthy (body_prop (body req) ''price'') \<longrightarrow> price new = price old)
              \<and> (\<not> truthy (body_prop (body req) ''category'') \<longrightarrow> category new = category old)
              \<and> (\<forall>x. body req ''inStock'' = Some (JBool x) \<longrightarrow> inStock new = JBool x)"
    apply (rule exI [of _ k], rule exI [of _ old], rule exI [of _ new])
    apply (intro conjI)
    apply (fact k(2) old ido h f)+
    done
qed

theorem falsy_values_read_as_absent_witness:
  "handle sample_env initial
     (sample_request POST [''api'', ''products''] Map.empty
        [''name'' \<mapsto> JStr ''Sample'', ''description'' \<mapsto> JStr '''',
         ''price'' \<mapsto> JNum 0, ''category'' \<mapsto> JStr ''free'', ''inStock'' \<mapsto> JBool True])
   = (\<lparr> status = 400, payload = Failure ''All fields are required'' \<rparr>, initial)
   \<and> (\<exists>k old new. k < length (products initial) \<and> old = products initial ! k
         \<and> product_id old = ''1''
         \<and> handle sample_env initial
              (sample_request PUT [''api'', ''products'', ''1''] Map.empty
                 [''price'' \<mapsto> JNum 0, ''description'' \<mapsto> JStr ''''])
            = (\<lparr> status = 200, payload = One new \<rparr>,
               initial \<lparr> products := (products initial)[k := new] \<rparr>)
         \<and> price new = price old \<and> description new = description old)"
proof -
  let ?r = "sample_request POST [''api'', ''products''] Map.empty
        [''name'' \<mapsto> JStr ''Sample'', ''description'' \<mapsto> JStr '''',
         ''price'' \<mapsto> JNum 0, ''category'' \<mapsto> JStr ''free'', ''inStock'' \<mapsto> JBool True]"
  let ?q = "sample_request PUT [''api'', ''products'', ''1''] Map.empty
                 [''price'' \<mapsto> JNum 0, ''description'' \<mapsto> JStr '''']"
  have c: "req_method ?r = POST \<and> path ?r = [''api'', ''products'']
           \<and> (\<not> truthy (body_prop (body ?r) ''name'')
                \<or> \<not> truthy (body_prop (body ?r) ''description'')
                \<or> \<not> truthy (body_prop (body ?r) ''price'')
                \<or> \<not> truthy (body_prop (body ?r) ''category''))"
    by (simp add: sample_request_def body_prop_def)
  from falsy_values_read_as_absent [OF authorized_sample, where s = initial,
      THEN conjunct1, rule_format, OF c]
  have first: "handle sample_env initial ?r
      = (\<lparr> status = 400, payload = Failure ''All fields are required'' \<rparr>, initial)" .
  have fp: "\<not> truthy (body_prop (body ?q) ''price'')"
    and fd: "\<not> truthy (body_prop (body ?q) ''description'')"
    by (simp_all add: sample_request_def body_prop_def)
  have u: "req_method ?q = PUT \<and> path ?q = [''api'', ''products'', ''1'']
           \<and> ''1'' \<in> product_id ` set (products initial)
           \<and> validateProductUpdate (body ?q) = None"
    by (simp add: sample_request_def initial_def seed_def validateProductUpdate_None body_prop_def)
  from falsy_values_read_as_absent [OF authorized_sample, where s = initial,
      THEN conjunct2, THEN conjunct2, rule_format, OF u]
  obtain k old new where
    k: "k < length (products initial)" and old: "old = products initial ! k"
    and ido: "product_id old = ''1''"
    and h: "handle sample_env initial ?q
        = (\<lparr> status = 200, payload = One new \<rparr>,
           initial \<lparr> products := (products initial)[k := new] \<rparr>)"
    and d: "\<not> truthy (body_prop (body ?q) ''description'') \<longrightarrow> description new = description old"
    and p: "\<not> truthy (body_prop (body ?q) ''price'') \<longrightarrow> price new = price old"
    by (elim exE conjE)
  from p fp have p': "price new = price old" by (rule mp)
  from d fd have d': "description new = description old" by (rule mp)
  have second: "\<exists>k old new. k < length (products initial) \<and> old = products initial ! k
         \<and> product_id old = ''1''
         \<and> handle sample_env initial ?q
            = (\<lparr> status = 200, payload = One new \<rparr>,
               initial \<lparr> products := (products initial)[k := new] \<rparr>)
         \<and> price new = price old \<and> description new = description old"
    apply (rule exI [of _ k], rule exI [of _ old], rule exI [of _ new])
    apply (intro conjI)
    apply (fact k old ido h p' d')+
    done
  from first second show ?thesis by (rule conjI)
qed

text \<open>
  The claim as first stated (every creation payload with a falsy value of the right type is
  rejected) fails for \<open>inStock\<close>: \<^verbatim>\<open>false\<close> is falsy and a boolean, and the payload is
  accepted.
\<close>

theorem create_out_of_stock_counterexample:
  "\<not> truthy (JBool False) \<and> typeof (JBool False) = T_boolean
   \<and> fst (handle sample_env initial
        (sample_request POST [''api'', ''products''] Map.empty
           [''name'' \<mapsto> JStr ''Kettle'', ''description'' \<mapsto> JStr ''Electric kettle'',
            ''price'' \<mapsto> JNum 30, ''category'' \<mapsto> JStr ''kitchen'',
            ''inStock'' \<mapsto> JBool False]))
      = \<lparr> status = 201,
          payload = One \<lparr> product_id = ''uuid-'', name = JStr ''Kettle'',
                         description = JStr ''Electric kettle'', price = JNum 30,
                         category = JStr ''kitchen'', inStock = JBool False \<rparr> \<rparr>"
  by (simp add: sample_request_def sample_env_def initial_def
      handle_routing routing_def apiRouter_def authMiddleware_def routes_def run_endpoint_def
      createProduct_def validateProductCreation_def body_prop_def Let_def)

section \<open>Listing products\<close>

text \<open>
  C5, as amended. An authorized \<^verbatim>\<open>GET /api/products\<close> returns 200 and leaves the state as it
  is. The total is the number of products selected: those whose category is the
  \<^verbatim>\<open>category\<close> parameter when that is given and not empty, all products otherwise. Page and
  limit are echoed as \<^verbatim>\<open>parseInt\<close> returns them, which is as doubles: the parsed parameter
  when \<^verbatim>\<open>parseInt\<close> gives a number other than \<^verbatim>\<open>NaN\<close> and zero (with no upper bound; an
  integer that is no double is rounded to one, and an infinity is sent as \<^verbatim>\<open>null\<close>), 1 and
  10 when the parameter is absent, does not parse or parses to zero. The products returned
  are \<^verbatim>\<open>slice((page-1)*limit, page*limit)\<close> of the selected list, the two bounds computed in
  doubles. For a positive page and a positive limit that is the window of \<open>limit\<close> products
  after the first \<open>(page-1)*limit\<close>, empty when the page lies beyond the end of the list,
  and the whole list for page 1 with a limit of at least its length. The last three are
  stated for a list of fewer than \<open>2\<^sup>5\<^sup>3\<close> products, which every array of the program is.
\<close>

theorem list_products:
  assumes a: "authorized e req" and m: "req_method req = GET"
    and p: "path req = [''api'', ''products'']"
  shows "\<exists>pg lim window.
      handle e s req =
        (\<lparr> status = 200,
           payload = Page (json_number pg) (json_number lim) (length (matching s (query req)))
             window \<rparr>, s)
    \<and> (query req ''page'' = None
          \<or> (\<exists>v. query req ''page'' = Some v \<and> (parseInt v = NaN \<or> parseInt v = Fin 0)) \<longrightarrow>
          pg = Fin 1)
    \<and> (query req ''limit'' = None
          \<or> (\<exists>v. query req ''limit'' = Some v \<and> (parseInt v = NaN \<or> parseInt v = Fin 0)) \<longrightarrow>
          lim = Fin 10)
    \<and> (\<forall>v. query req ''page'' = Some v \<and> parseInt v \<noteq> NaN \<and> parseInt v \<noteq> Fin 0 \<longrightarrow>
          pg = parseInt v)
    \<and> (\<forall>v. query req ''limit'' = Some v \<and> parseInt v \<noteq> NaN \<and> parseInt v \<noteq> Fin 0 \<longrightarrow>
          lim = parseInt v)
    \<and> window = slice (matching s (query req)) (js_times (js_minus_one pg) lim) (js_times pg lim)
    \<and> (\<forall>a b. pg = Fin a \<and> lim = Fin b \<and> 0 < a \<and> 0 < b
            \<and> int (length (matching s (query req))) < 2 ^ 53 \<longrightarrow>
          window = take (nat b) (drop (nat ((a - 1) * b)) (matching s (query req))))
    \<and> (\<forall>a b. pg = Fin a \<and> lim = Fin b \<and> 0 < a \<and> 0 < b
            \<and> int (length (matching s (query req))) < 2 ^ 53
            \<and> int (length (matching s (query req))) \<le> (a - 1) * b \<longrightarrow>
          window = [])
    \<and> (pg = Fin 1 \<and> (lim = PosInf \<or> (\<exists>b. lim = Fin b \<and> int (length (matching s (query req))) \<le> b))
            \<and> int (length (matching s (query req))) < 2 ^ 53 \<longrightarrow>
          window = matching s (query req))"
proof -
  define pg where "pg = query_number (query req) ''page'' (Fin 1)"
  define lim where "lim = query_number (query req) ''limit'' (Fin 10)"
  define ms where "ms = matching s (query req)"
  define window where "window = slice ms (js_times (js_minus_one pg) lim) (js_times pg lim)"
  have h: "handle e s req =
      (\<lparr> status = 200, payload = Page (json_number pg) (json_number lim) (length ms) window \<rparr>, s)"
    by (simp add: handle_routing routing_list [OF a m p] listProducts_matching pg_def lim_def
        window_def ms_def)
  have d1: "query req ''page'' = None
      \<or> (\<exists>v. query req ''page'' = Some v \<and> (parseInt v = NaN \<or> parseInt v = Fin 0)) \<longrightarrow>
      pg = Fin 1"
    unfolding pg_def by (rule query_number_default)
  have d2: "query req ''limit'' = None
      \<or> (\<exists>v. query req ''limit'' = Some v \<and> (parseInt v = NaN \<or> parseInt v = Fin 0)) \<longrightarrow>
      lim = Fin 10"
    unfolding lim_def by (rule query_number_default)
  have e1: "\<forall>v. query req ''page'' = Some v \<and> parseInt v \<noteq> NaN \<and> parseInt v \<noteq> Fin 0 \<longrightarrow>
      pg = parseInt v"
    unfolding pg_def by (rule query_number_parsed)
  have e2: "\<forall>v. query req ''limit'' = Some v \<and> parseInt v \<noteq> NaN \<and> parseInt v \<noteq> Fin 0 \<longrightarrow>
      lim = parseInt v"
    unfolding lim_def by (rule query_number_parsed)
  have w0: "window = slice ms (js_times (js_minus_one pg) lim) (js_times pg lim)"
    by (rule window_def)
  have w1: "\<forall>a b. pg = Fin a \<and> lim = Fin b \<and> 0 < a \<and> 0 < b \<and> int (length ms) < 2 ^ 53 \<longrightarrow>
      window = take (nat b) (drop (nat ((a - 1) * b)) ms)"
  proof (intro allI impI)
    fix a b
    assume c: "pg = Fin a \<and> lim = Fin b \<and> 0 < a \<and> 0 < b \<and> int (length ms) < 2 ^ 53"
    from c have pa: "pg = Fin a" by (elim conjE)
    from c have lb: "lim = Fin b" by (elim conjE)
    from c have a0: "0 < a" by (elim conjE)
    from c have b0: "0 < b" by (elim conjE)
    from c have ln: "int (length ms) < 2 ^ 53" by (elim conjE)
    from window_positive [OF a0 b0 ln]
    show "window = take (nat b) (drop (nat ((a - 1) * b)) ms)"
      unfolding window_def pa lb .
  qed
  have w2: "\<forall>a b. pg = Fin a \<and> lim = Fin b \<and> 0 < a \<and> 0 < b \<and> int (length ms) < 2 ^ 53
      \<and> int (length ms) \<le> (a - 1) * b \<longrightarrow> window = []"
  proof (intro allI impI)
    fix a b
    assume c: "pg = Fin a \<and> lim = Fin b \<and> 0 < a \<and> 0 < b \<and> int (length ms) < 2 ^ 53
      \<and> int (length ms) \<le> (a - 1) * b"
    with w1 have "window = take (nat b) (drop (nat ((a - 1) * b)) ms)" by blast
    moreover from c have "length ms \<le> nat ((a - 1) * b)" by linarith
    ultimately show "window = []" by simp
  qed
  have w3: "pg = Fin 1 \<and> (lim = PosInf \<or> (\<exists>b. lim = Fin b \<and> int (length ms) \<le> b))
      \<and> int (length ms) < 2 ^ 53 \<longrightarrow> window = ms"
  proof
    assume c: "pg = Fin 1 \<and> (lim = PosInf \<or> (\<exists>b. lim = Fin b \<and> int (length ms) \<le> b))
      \<and> int (length ms) < 2 ^ 53"
    then have pg1: "pg = Fin 1" and len: "int (length ms) < 2 ^ 53" by simp_all
    from c consider "lim = PosInf" | b where "lim = Fin b" "int (length ms) \<le> b" by blast
    then show "window = ms"
    proof cases
      case 1
      then show ?thesis
        by (simp add: window_def pg1 js_minus_one_def to_double_exact slice_def
            relative_index_def)
    next
      case 2
      show ?thesis
      proof (cases "0 < b")
        case True
        with w1 pg1 2(1) len have "window = take (nat b) (drop (nat ((1 - 1) * b)) ms)"
          by simp
        moreover from 2(2) have "length ms \<le> nat b" by linarith
        ultimately show ?thesis by simp
      next
        case False
        with 2(2) have "length ms = 0" by linarith
        then have "ms = []" by simp
        then show ?thesis by (simp add: window_def slice_def)
      qed
    qed
  qed
  show ?thesis
    unfolding ms_def [symmetric]
    apply (rule exI [of _ pg], rule exI [of _ lim], rule exI [of _ window])
    apply (intro conjI)
    apply (fact h d1 d2 e1 e2 w0 w1 w2 w3)+
    done
qed

theorem list_products_witness:
  "handle sample_env initial
     (sample_request GET [''api'', ''products'']
        [''category'' \<mapsto> ''kitchen'', ''page'' \<mapsto> ''1'', ''limit'' \<mapsto> ''1''] Map.empty)
   = (\<lparr> status = 200,
        payload = Page (JNum 1) (JNum 1) 1
          [\<lparr> product_id = ''3'', name = JStr ''Coffee Maker'',
              description = JStr ''Programmable coffee maker with timer'',
              price = JNum 50, category = JStr ''kitchen'', inStock = JBool False \<rparr>] \<rparr>,
      initial)"
proof -
  let ?q = "[''category'' \<mapsto> ''kitchen'', ''page'' \<mapsto> ''1'', ''limit'' \<mapsto> ''1'']"
  let ?r = "sample_request GET [''api'', ''products''] ?q Map.empty"
  have m: "req_method ?r = GET" and p: "path ?r = [''api'', ''products'']"
    and q: "query ?r = ?q"
    by (simp_all add: sample_request_def)
  from list_products [OF authorized_sample m p, where s = initial]
  obtain pg lim window where
    h: "handle sample_env initial ?r =
        (\<lparr> status = 200,
           payload = Page (json_number pg) (json_number lim)
             (length (matching initial (query ?r))) window \<rparr>,
         initial)"
    and e1: "\<forall>v. query ?r ''page'' = Some v \<and> parseInt v \<noteq> NaN \<and> parseInt v \<noteq> Fin 0 \<longrightarrow>
        pg = parseInt v"
    and e2: "\<forall>v. query ?r ''limit'' = Some v \<and> parseInt v \<noteq> NaN \<and> parseInt v \<noteq> Fin 0 \<longrightarrow>
        lim = parseInt v"
    and w1: "\<forall>a b. pg = Fin a \<and> lim = Fin b \<and> 0 < a \<and> 0 < b
        \<and> int (length (matching initial (query ?r))) < 2 ^ 53 \<longrightarrow>
        window = take (nat b) (drop (nat ((a - 1) * b)) (matching initial (query ?r)))"
    by (elim exE conjE)
  from e1 [rule_format, of "''1''"] have pg: "pg = Fin 1" by (simp add: q parseInt_1)
  from e2 [rule_format, of "''1''"] have lim: "lim = Fin 1" by (simp add: q parseInt_1)
  have mt: "matching initial (query ?r) =
      [\<lparr> product_id = ''3'', name = JStr ''Coffee Maker'',
          description = JStr ''Programmable coffee maker with timer'',
          price = JNum 50, category = JStr ''kitchen'', inStock = JBool False \<rparr>]"
    by (simp add: q matching_def initial_def seed_def)
  from w1 [rule_format, of 1 1] pg lim mt
  have "window = take 1 (matching initial (query ?r))" by simp
  with mt have "window = matching initial (query ?r)" by simp
  with h pg lim mt show ?thesis by (simp add: json_number_def)
qed

text \<open>
  The claim as first stated (the window \<open>[(page-1)*limit, page*limit)\<close> for every request,
  empty for every page out of range) fails for a negative page: with \<^verbatim>\<open>page=-1&limit=2\<close> the
  window \<open>[-4, -2)\<close> holds no position of the list, and the response holds the first
  product, since \<^verbatim>\<open>slice\<close> counts a negative index from the end.
\<close>

theorem list_negative_page_counterexample:
  "handle sample_env initial
     (sample_request GET [''api'', ''products'']
        [''page'' \<mapsto> ''-1'', ''limit'' \<mapsto> ''2''] Map.empty)
   = (\<lparr> status = 200,
        payload = Page (JNum (- 1)) (JNum 2) 3
          [\<lparr> product_id = ''1'', name = JStr ''Laptop'',
              description = JStr ''High-performance laptop with 16GB RAM'',
              price = JNum 1200, category = JStr ''electronics'', inStock = JBool True \<rparr>] \<rparr>,
      initial)"
  by (simp add: sample_request_def sample_env_def initial_def seed_def
      handle_routing routing_def apiRouter_def authMiddleware_def routes_def run_endpoint_def
      listProducts_def query_number_def number_truthy_def parseInt_2 parseInt_m1
      js_minus_one_def to_double_def json_number_def slice_def relative_index_def Let_def)

section \<open>Search and statistics\<close>

text \<open>
  C7. The search handler on its own does what is claimed (\<open>searchProducts_selects\<close>);
  run on the seed collection with \<^verbatim>\<open>q=phone\<close> it selects the \<^verbatim>\<open>Smartphone\<close> record and
  nothing else. The authorized request
  \<^verbatim>\<open>GET /api/products/search?q=phone\<close> does not get that answer: it is served by the route
  \<^verbatim>\<open>/products/:id\<close> registered earlier, and the answer is 404.
\<close>

theorem search_request_answered_404:
  "searchProducts initial [''q'' \<mapsto> ''phone'']
     = Inr (\<lparr> status = 200,
              payload = Many
                [\<lparr> product_id = ''2'', name = JStr ''Smartphone'',
                    description = JStr ''Latest model with 128GB storage'',
                    price = JNum 800, category = JStr ''electronics'', inStock = JBool True \<rparr>] \<rparr>,
            initial)
   \<and> handle sample_env initial
        (sample_request GET [''api'', ''products'', ''search''] [''q'' \<mapsto> ''phone''] Map.empty)
      = (\<lparr> status = 404, payload = Failure ''Product not found'' \<rparr>, initial)"
proof
  show "searchProducts initial [''q'' \<mapsto> ''phone'']
     = Inr (\<lparr> status = 200,
              payload = Many
                [\<lparr> product_id = ''2'', name = JStr ''Smartphone'',
                    description = JStr ''Latest model with 128GB storage'',
                    price = JNum 800, category = JStr ''electronics'', inStock = JBool True \<rparr>] \<rparr>,
            initial)"
    by (simp add: searchProducts_def initial_def seed_def toLowerCase_def Let_def)
next
  show "handle sample_env initial
        (sample_request GET [''api'', ''products'', ''search''] [''q'' \<mapsto> ''phone''] Map.empty)
      = (\<lparr> status = 404, payload = Failure ''Product not found'' \<rparr>, initial)"
    by (simp add: sample_request_def sample_env_def initial_def seed_def
        handle_routing routing_def apiRouter_def authMiddleware_def routes_def run_endpoint_def
        param_id_def getProduct_def errorHandler_def)
qed

text \<open>
  C8. The statistics handler on its own does what is claimed for every category that is not
  the name of an inherited property (\<open>productStats_counts\<close>); run on the seed collection it
  counts two products in \<^verbatim>\<open>electronics\<close> and one in \<^verbatim>\<open>kitchen\<close>. The authorized request \<^verbatim>\<open>GET /api/products/stats\<close> does not get that
  answer: it is served by the route \<^verbatim>\<open>/products/:id\<close> registered earlier,
  and the answer is 404.
\<close>

theorem stats_request_answered_404:
  "productStats sample_env initial
     = Inr (\<lparr> status = 200,
              payload = Stats [''electronics'' \<mapsto> Count 2, ''kitchen'' \<mapsto> Count 1] \<rparr>, initial)
   \<and> handle sample_env initial
        (sample_request GET [''api'', ''products'', ''stats''] Map.empty Map.empty)
      = (\<lparr> status = 404, payload = Failure ''Product not found'' \<rparr>, initial)"
proof
  show "productStats sample_env initial
     = Inr (\<lparr> status = 200,
              payload = Stats [''electronics'' \<mapsto> Count 2, ''kitchen'' \<mapsto> Count 1] \<rparr>, initial)"
    by (simp add: productStats_def initial_def seed_def count_key_def object_prototype_names_def
        numeral_2_eq_2)
next
  show "handle sample_env initial
        (sample_request GET [''api'', ''products'', ''stats''] Map.empty Map.empty)
      = (\<lparr> status = 404, payload = Failure ''Product not found'' \<rparr>, initial)"
    by (simp add: sample_request_def sample_env_def initial_def seed_def
        handle_routing routing_def apiRouter_def authMiddleware_def routes_def run_endpoint_def
        param_id_def getProduct_def errorHandler_def)
qed

end
